theory Spec2Isabelle
  imports Main "HOL-Library.Word" "HOL-Library.Char_ord" "HOL-Library.List_Lexorder"
    "HOL-Library.Sublist"
begin

section \<open>Installing a package from removable storage: \<open>install/fuse_sdcard_install.cpp\<close>\<close>

text \<open>
  The file under verification has one entry point, \<open>ApplyFromStorage\<close>, and the helpers
  \<open>BrowseDirectory\<close>, \<open>StartSdcardFuse\<close>, \<open>is_ufs_dev\<close> and \<open>do_sdcard_mount_for_ufs\<close>.
  Everything else it touches (the volume manager, the menu widget, the installer, the
  kernel) is outside the file. The embedding therefore takes the answers of those
  collaborators from an environment record and records every call made to them in a
  trace, in program order. Diagnostic logging (\<open>LOG\<close>, \<open>PLOG\<close>) is not recorded.
\<close>

subsection \<open>C strings\<close>

definition NUL :: char where
  "NUL = CHR 0x00"

text \<open>
  \<open>c_str\<close>: what a C function sees of a \<open>std::string\<close> or of a character buffer, the
  bytes before the first NUL.
\<close>

definition c_str :: "string \<Rightarrow> string" where
  "c_str s = takeWhile (\<lambda>c. c \<noteq> NUL) s"

text \<open>\<open>strlen\<close>: the number of bytes before the first NUL.\<close>

definition strlen :: "string \<Rightarrow> nat" where
  "strlen s = length (takeWhile (\<lambda>c. c \<noteq> NUL) s)"

text \<open>
  \<open>strncmp\<close> on the bytes of two NUL-terminated buffers. A buffer is given by the bytes
  before its terminator, so reading at the end of the list reads the terminator. The
  comparison stops after \<open>n\<close> bytes, at the first difference (bytes compare as unsigned),
  or at a NUL common to both.
\<close>

definition byte_at_head :: "string \<Rightarrow> char" where
  "byte_at_head s = (case s of [] \<Rightarrow> NUL | c # _ \<Rightarrow> c)"

fun strncmp :: "string \<Rightarrow> string \<Rightarrow> nat \<Rightarrow> int" where
  "strncmp s1 s2 0 = 0"
| "strncmp s1 s2 (Suc n) =
     (let a = byte_at_head s1; b = byte_at_head s2
      in if a \<noteq> b then int (of_char a) - int (of_char b)
         else if a = NUL then 0
         else strncmp (tl s1) (tl s2) n)"

text \<open>\<open>sizeof\<close> of a string literal counts its terminator.\<close>

definition sizeof_literal :: "string \<Rightarrow> nat" where
  "sizeof_literal s = length s + 1"

text \<open>\<open>tolower\<close> in the C locale: only the letters A to Z change.\<close>

definition tolower :: "char \<Rightarrow> char" where
  "tolower c = (if CHR ''A'' \<le> c \<and> c \<le> CHR ''Z'' then char_of (of_char c + (32::nat)) else c)"

text \<open>
  Modelled from the spec: \<open>android::base::EndsWithIgnoreCase\<close> is a library helper that
  is not part of the file. The spec describes the classification of package files as a
  "suffix match, case-insensitive, on a fixed extension".
\<close>

definition EndsWithIgnoreCase :: "string \<Rightarrow> string \<Rightarrow> bool" where
  "EndsWithIgnoreCase s sfx \<longleftrightarrow>
     length sfx \<le> length s \<and>
     map tolower (drop (length s - length sfx) s) = map tolower sfx"

subsection \<open>Data and collaborators\<close>

text \<open>The fields of an fstab entry (\<open>Volume\<close>) that the file reads.\<close>

record Volume =
  mount_point :: string
  fs_type :: string
  flags :: "64 word"
  fs_options :: string

record VolumeInfo =
  mId :: string
  mPath :: string

text \<open>
  Modelled from the spec: the result codes of the installer come from \<open>install/install.h\<close>,
  which is not part of the file. The spec lists the outcomes
  \<open>{Success, Error, None, UnverifiedPackage, DowngradeBlocked}\<close>.
\<close>

datatype InstallResult =
    INSTALL_SUCCESS
  | INSTALL_ERROR
  | INSTALL_NONE
  | INSTALL_UNVERIFIED
  | INSTALL_DOWNGRADE

text \<open>
  The two well-known paths of the signal channel. Their values are defined in
  \<open>fuse_sideload.h\<close>, outside the file; only their identity matters here.
\<close>

datatype pathname = FUSE_SIDELOAD_HOST_PATHNAME | FUSE_SIDELOAD_HOST_EXIT_PATHNAME

datatype d_type = DT_DIR | DT_REG | DT_OTHER

record dirent =
  d_name :: string
  d_type :: d_type

datatype wait_options = WNOHANG | WAIT_BLOCKING

text \<open>Every call that leaves the file, with its arguments.\<close>

datatype event =
    Mount string string string "64 word" string
  | VolumeMount string
  | VolumeUnmount string
  | ShowMenu "string list" "string list" "64 word"
  | Print string
  | Update_bootloader_message
  | Fork
  | Waitpid int wait_options
  | Stat pathname
  | Sleep nat
  | Kill_SIGKILL int
  | Install_package pathname bool bool int bool bool
  | Ask_to_continue_unverified
  | Ask_to_continue_downgrade

datatype stat_result = Stat_ok | Stat_errno int

definition ENOENT :: int where
  "ENOENT = 2"

text \<open>
  The environment: what the collaborators answer. \<open>INTERRUPTED\<close>, \<open>kGoHome\<close> and
  \<open>kGoBack\<close> are the menu sentinels of \<open>RecoveryUI\<close> and \<open>Device\<close> as \<open>size_t\<close>
  values; they are declared outside the file and are parameters here. \<open>waitpid_nohang\<close>
  and \<open>stat_host\<close> give the answers of the non-blocking wait and of the \<open>stat\<close> of the
  ready-signal path in polling iteration \<open>i\<close>; \<open>install_package\<close> gives the outcome of
  the installer for the arguments it is called with; \<open>bootdevice\<close> is the content of
  the buffer that \<open>property_get\<close> fills for \<open>ro.boot.bootdevice\<close>, and \<open>sdcard_volume\<close>
  is what \<open>volume_for_mount_point("/sdcard")\<close> finds.
\<close>

record env =
  bootdevice :: string
  sdcard_volume :: "Volume option"
  mount_rc :: int
  volumeMount :: "string \<Rightarrow> bool"
  opendir :: "string \<Rightarrow> dirent list option"
  INTERRUPTED :: "64 word"
  kGoHome :: "64 word"
  kGoBack :: "64 word"
  fork_result :: int
  provider_valid :: "string \<Rightarrow> bool"
  run_fuse_sideload :: "string \<Rightarrow> int"
  waitpid_nohang :: "nat \<Rightarrow> int"
  stat_host :: "nat \<Rightarrow> stat_result"
  install_package :: "pathname \<Rightarrow> bool \<Rightarrow> bool \<Rightarrow> int \<Rightarrow> bool \<Rightarrow> bool \<Rightarrow> InstallResult"
  ask_to_continue_unverified :: bool
  ask_to_continue_downgrade :: bool

text \<open>
  The state threaded through a run: the results the menu widget will still deliver
  (one per \<open>ShowMenu\<close> call that returns) and the trace so far.
\<close>

record state =
  keys :: "64 word list"
  trace :: "event list"

definition emit :: "event \<Rightarrow> state \<Rightarrow> state" where
  "emit e st = st\<lparr>trace := trace st @ [e]\<rparr>"

text \<open>
  How a call ends: it returns a value, it never returns because the menu waits for
  input that does not come, it indexes the menu list out of range, which C++ leaves
  undefined, or the process leaves through \<open>_exit\<close> (the forked child).
\<close>

datatype 'a ending = Ret 'a | Blocked | Undefined | Exited int

subsection \<open>\<open>BrowseDirectory\<close>\<close>

text \<open>
  The \<open>readdir\<close> loop (lines 72 to 83): directories and package files are collected.
  \<open>d_name\<close> is a character buffer, and \<open>name\<close> is built from it as a C string.
\<close>

fun read_entries :: "dirent list \<Rightarrow> string list \<Rightarrow> string list \<Rightarrow> string list \<times> string list" where
  "read_entries [] dirs entries = (dirs, entries)"
| "read_entries (de # rest) dirs entries =
     (let name = c_str (d_name de)
      in if d_type de = DT_DIR then
           (if name = ''.'' \<or> name = ''..'' then read_entries rest dirs entries
            else read_entries rest (dirs @ [name @ ''/'']) entries)
         else if d_type de = DT_REG \<and> EndsWithIgnoreCase name ''.zip'' then
           read_entries rest dirs (entries @ [name])
         else read_entries rest dirs entries)"

text \<open>
  Lines 69 to 89. \<open>std::sort\<close> on \<open>std::string\<close> orders bytewise and lexicographically,
  which is the order of \<open>string\<close> here; a sorted list of strings is unique, so \<open>sort\<close>
  gives the same list.
\<close>

definition menu_entries :: "dirent list \<Rightarrow> string list" where
  "menu_entries des =
     (case read_entries des [] [''../''] of (dirs, entries) \<Rightarrow> sort entries @ sort dirs)"

definition show_menu :: "string list \<Rightarrow> string list \<Rightarrow> 64 word \<Rightarrow> state \<Rightarrow> 64 word option \<times> state" where
  "show_menu headers items initial st =
     (case keys st of
        [] \<Rightarrow> (None, emit (ShowMenu headers items initial) st)
      | k # ks \<Rightarrow> (Some k, emit (ShowMenu headers items initial) (st\<lparr>keys := ks\<rparr>)))"

function BrowseDirectory :: "env \<Rightarrow> string \<Rightarrow> state \<Rightarrow> string ending \<times> state"
  and browse_menu :: "env \<Rightarrow> string \<Rightarrow> string list \<Rightarrow> string list \<Rightarrow> 64 word \<Rightarrow> state \<Rightarrow> string ending \<times> state"
where
  "BrowseDirectory e path st =
     (case opendir e path of
        None \<Rightarrow> (Ret '''', st)
      | Some des \<Rightarrow>
          browse_menu e path [''Choose a package to install:'', path] (menu_entries des) 0 st)"
| "browse_menu e path headers entries initial st =
     (case show_menu headers entries initial st of
        (None, st1) \<Rightarrow> (Blocked, st1)
      | (Some chosen_item, st1) \<Rightarrow>
          if chosen_item = INTERRUPTED e then (Ret '''', st1)
          else if chosen_item = kGoHome e then (Ret ''@'', st1)
          else if chosen_item = kGoBack e \<or> chosen_item = 0 then (Ret '''', st1)
          else if length entries \<le> unat chosen_item then (Undefined, st1)
          else
            (let item = entries ! unat chosen_item;
                 new_path = path @ ''/'' @ item
             in if last new_path = CHR ''/'' then
                  (case BrowseDirectory e (butlast new_path) st1 of
                     (Ret result, st2) \<Rightarrow>
                       if result \<noteq> '''' then (Ret result, st2)
                       else browse_menu e path headers entries chosen_item st2
                   | (other, st2) \<Rightarrow> (other, st2))
                else (Ret new_path, st1)))"
  by pat_completeness auto

lemma show_menu_keys:
  "show_menu h es i st = (r, st1) \<Longrightarrow> length (keys st1) \<le> length (keys st)"
  by (auto simp: show_menu_def emit_def split: list.splits)

lemma show_menu_Some_keys:
  "show_menu h es i st = (Some k, st1) \<Longrightarrow> length (keys st1) < length (keys st)"
  by (auto simp: show_menu_def emit_def split: list.splits)

text \<open>
  Termination: every trip round the menu loop and every descent into a subdirectory
  happens after a menu result was consumed, and a call never gives results back.
\<close>

lemma browse_keys_dom:
  "BrowseDirectory_browse_menu_dom (Inl (e, path, st)) \<Longrightarrow>
     BrowseDirectory e path st = (r, st') \<Longrightarrow> length (keys st') \<le> length (keys st)"
  "BrowseDirectory_browse_menu_dom (Inr (e, path, hs, es, i, st)) \<Longrightarrow>
     browse_menu e path hs es i st = (r, st') \<Longrightarrow> length (keys st') \<le> length (keys st)"
proof (induction e path st and e path hs es i st arbitrary: r st' and r st'
    rule: BrowseDirectory_browse_menu.pinduct)
  case (1 e path st)
  then show ?case
    by (auto simp: BrowseDirectory.psimps split: option.splits)
next
  case (2 e path headers entries initial st)
  show ?case
  proof (cases "show_menu headers entries initial st")
    case (Pair k st1)
    note sm = this
    have le1: "length (keys st1) \<le> length (keys st)"
      using sm by (rule show_menu_keys)
    show ?thesis
    proof (cases k)
      case None
      then show ?thesis
        using 2(1,4) sm le1 by (simp add: browse_menu.psimps)
    next
      case (Some c)
      show ?thesis
      proof (cases "c = INTERRUPTED e \<or> c = kGoHome e \<or> c = kGoBack e \<or> c = 0
          \<or> length entries \<le> unat c \<or> last (path @ ''/'' @ entries ! unat c) \<noteq> CHR ''/''")
        case True
        then show ?thesis
          using 2(1,4) sm Some le1
          by (auto simp add: browse_menu.psimps Let_def split: if_splits)
      next
        case False
        let ?np = "path @ ''/'' @ entries ! unat c"
        obtain r2 st2 where sub: "BrowseDirectory e (butlast ?np) st1 = (r2, st2)"
          by force
        have le2: "length (keys st2) \<le> length (keys st1)"
          using 2(2)[OF sm[symmetric] Some _ _ _ _ refl refl _ sub] False by simp
        show ?thesis
        proof (cases "r2 = Ret ''''")
          case True
          have "length (keys st') \<le> length (keys st2)"
            apply (rule 2(3)[OF sm[symmetric] Some _ _ _ _ refl refl _ sub[symmetric] True])
            using False 2(4) sm Some sub True
            by (auto simp: browse_menu.psimps[OF 2(1)])
          then show ?thesis
            using le1 le2 by simp
        next
          case other: False
          then show ?thesis
            using 2(1,4) sm Some le1 le2 sub False
            by (auto simp add: browse_menu.psimps Let_def split: if_splits ending.splits)
        qed
      qed
    qed
  qed
qed

termination BrowseDirectory
  apply (relation "inv_image (measure id <*lex*> measure id)
      (\<lambda>x. case x of Inl (e, p, st) \<Rightarrow> (length (keys st), 1::nat)
                      | Inr (e, p, hs, es, i, st) \<Rightarrow> (length (keys st), 0))")
  subgoal by (intro wf_inv_image wf_lex_prod wf_measure)
  subgoal by simp
  subgoal by (simp add: show_menu_Some_keys[OF sym])
  subgoal for e path headers entries initial st x y x2 xa xb xc ya x1
    using show_menu_Some_keys[of headers entries initial st x2 y]
      browse_keys_dom(1)[of e "butlast xb" y xc ya]
    by simp
  done

subsection \<open>The child process\<close>

definition EXIT_SUCCESS :: int where
  "EXIT_SUCCESS = 0"

definition EXIT_FAILURE :: int where
  "EXIT_FAILURE = 1"

definition StartSdcardFuse :: "env \<Rightarrow> string \<Rightarrow> bool" where
  "StartSdcardFuse e path =
     (if \<not> provider_valid e path then False else run_fuse_sideload e path = 0)"

subsection \<open>Mounting\<close>

definition UFS_DEV_SDCARD_BLK_PATH :: string where
  "UFS_DEV_SDCARD_BLK_PATH = ''/dev/block/mmcblk0p1''"

definition is_ufs_dev :: "env \<Rightarrow> int" where
  "is_ufs_dev e =
     (let buf = bootdevice e
      in if strlen buf < strlen ''.ufshc'' + 1 then 0
         else if strncmp (drop (strlen buf - strlen ''.ufshc'') buf) ''.ufshc''
                   (sizeof_literal ''.ufshc'') = 0
              then 1 else 0)"

definition do_sdcard_mount_for_ufs :: "env \<Rightarrow> state \<Rightarrow> int \<times> state" where
  "do_sdcard_mount_for_ufs e st =
     (case sdcard_volume e of
        None \<Rightarrow> (- 1, st)
      | Some v \<Rightarrow>
          if strncmp (c_str (fs_type v)) ''vfat'' (sizeof_literal ''vfat'') \<noteq> 0 then (- 1, st)
          else
            (let st1 = emit (Mount UFS_DEV_SDCARD_BLK_PATH (c_str (mount_point v))
                               (c_str (fs_type v)) (flags v) (c_str (fs_options v))) st
             in if mount_rc e \<noteq> 0 then (- 1, st1) else (0, st1)))"

text \<open>Lines 178 to 187 of \<open>ApplyFromStorage\<close>: \<open>True\<close> when the storage is mounted.\<close>

definition mount_storage :: "env \<Rightarrow> VolumeInfo \<Rightarrow> state \<Rightarrow> bool \<times> state" where
  "mount_storage e vi st =
     (if is_ufs_dev e \<noteq> 0 then
        (case do_sdcard_mount_for_ufs e st of (rc, st1) \<Rightarrow> (rc = 0, st1))
      else (volumeMount e (mId vi), emit (VolumeMount (mId vi)) st))"

subsection \<open>Waiting for the host and installing\<close>

definition SDCARD_INSTALL_TIMEOUT :: nat where
  "SDCARD_INSTALL_TIMEOUT = 10"

definition call_install_package ::
  "env \<Rightarrow> pathname \<Rightarrow> bool \<Rightarrow> bool \<Rightarrow> int \<Rightarrow> bool \<Rightarrow> bool \<Rightarrow> state \<Rightarrow> InstallResult \<times> state" where
  "call_install_package e p a b retry_count verify allow_ab_downgrade st =
     (install_package e p a b retry_count verify allow_ab_downgrade,
      emit (Install_package p a b retry_count verify allow_ab_downgrade) st)"

text \<open>
  Lines 237 to 246: the installer call and the two confirmed re-invocations. The second
  test reads \<open>result\<close> as the first branch left it.
\<close>

definition install_with_confirmations :: "env \<Rightarrow> state \<Rightarrow> InstallResult \<times> state" where
  "install_with_confirmations e st =
     (case call_install_package e FUSE_SIDELOAD_HOST_PATHNAME False True 0 True False st of
        (result1, st1) \<Rightarrow>
          (case (if result1 = INSTALL_UNVERIFIED then
                   (let st2 = emit Ask_to_continue_unverified st1
                    in if ask_to_continue_unverified e then
                         call_install_package e FUSE_SIDELOAD_HOST_PATHNAME False False 0 False False st2
                       else (result1, st2))
                 else (result1, st1)) of
             (result2, st3) \<Rightarrow>
               if result2 = INSTALL_DOWNGRADE then
                 (let st4 = emit Ask_to_continue_downgrade st3
                  in if ask_to_continue_downgrade e then
                       call_install_package e FUSE_SIDELOAD_HOST_PATHNAME False False 0 False True st4
                     else (result2, st4))
               else (result2, st3)))"

text \<open>
  The polling loop, lines 217 to 249, from iteration \<open>i\<close> on. It yields \<open>result\<close> and
  \<open>waited\<close>; both are assigned only on the way out of the loop, so leaving through the
  loop condition yields their initial values.
\<close>

function poll :: "env \<Rightarrow> int \<Rightarrow> nat \<Rightarrow> state \<Rightarrow> (InstallResult \<times> bool) \<times> state" where
  "poll e child i st =
     (if i < SDCARD_INSTALL_TIMEOUT then
        (let st1 = emit (Waitpid child WNOHANG) st
         in if waitpid_nohang e i = - 1 then ((INSTALL_ERROR, True), st1)
            else
              (let st2 = emit (Stat FUSE_SIDELOAD_HOST_PATHNAME) st1
               in case stat_host e i of
                    Stat_errno errno \<Rightarrow>
                      if errno = ENOENT \<and> i < SDCARD_INSTALL_TIMEOUT - 1 then
                        poll e child (i + 1) (emit (Sleep 1) st2)
                      else ((INSTALL_ERROR, False), emit (Kill_SIGKILL child) st2)
                  | Stat_ok \<Rightarrow>
                      (case install_with_confirmations e st2 of
                         (result, st3) \<Rightarrow> ((result, False), st3))))
      else ((INSTALL_ERROR, False), st))"
  by pat_completeness auto
termination
  by (relation "measure (\<lambda>(e, child, i, st). SDCARD_INSTALL_TIMEOUT - i)") auto

text \<open>The text of \<open>ui->Print("\n-- Install %s ...\n", path.c_str())\<close>.\<close>

definition install_message :: "string \<Rightarrow> string" where
  "install_message path = [CHR 0x0A] @ ''-- Install '' @ c_str path @ '' ...'' @ [CHR 0x0A]"

text \<open>
  Lines 199 to 265: everything after a package was chosen. A failed \<open>fork\<close> answers
  \<open>- 1\<close>, which the code does not test for; the answer \<open>0\<close> is the child. The test
  of the child's exit status (lines 260 to 262) only logs and is left out.
\<close>

definition install_selected :: "env \<Rightarrow> VolumeInfo \<Rightarrow> string \<Rightarrow> state \<Rightarrow> InstallResult ending \<times> state" where
  "install_selected e vi path st =
     (let st1 = emit (Print (install_message path)) st;
          st2 = emit Update_bootloader_message st1;
          st3 = emit Fork st2;
          child = fork_result e
      in if child = 0 then
           (Exited (if StartSdcardFuse e path then EXIT_SUCCESS else EXIT_FAILURE), st3)
         else
           (case poll e child 0 st3 of
              ((result, waited), st4) \<Rightarrow>
                (let st5 = (if \<not> waited then
                              emit (Waitpid child WAIT_BLOCKING)
                                (emit (Stat FUSE_SIDELOAD_HOST_EXIT_PATHNAME) st4)
                            else st4)
                 in (Ret result, emit (VolumeUnmount (mId vi)) st5))))"

definition ApplyFromStorage :: "env \<Rightarrow> VolumeInfo \<Rightarrow> state \<Rightarrow> InstallResult ending \<times> state" where
  "ApplyFromStorage e vi st =
     (case mount_storage e vi st of
        (False, st1) \<Rightarrow> (Ret INSTALL_ERROR, st1)
      | (True, st1) \<Rightarrow>
          (case BrowseDirectory e (mPath vi) st1 of
             (Ret path, st2) \<Rightarrow>
               if path = ''@'' then (Ret INSTALL_NONE, st2)
               else if path = '''' then (Ret INSTALL_NONE, emit (VolumeUnmount (mId vi)) st2)
               else install_selected e vi path st2
           | (Blocked, st2) \<Rightarrow> (Blocked, st2)
           | (Undefined, st2) \<Rightarrow> (Undefined, st2)
           | (Exited n, st2) \<Rightarrow> (Exited n, st2)))"

subsection \<open>Notions used in the statements\<close>

text \<open>A run starts with the menu results the user will give and an empty trace.\<close>

definition start :: "64 word list \<Rightarrow> state" where
  "start ks = \<lparr>keys = ks, trace = []\<rparr>"

fun is_Install_package :: "event \<Rightarrow> bool" where
  "is_Install_package (Install_package p a b n v d) = True"
| "is_Install_package _ = False"

fun is_VolumeUnmount :: "event \<Rightarrow> bool" where
  "is_VolumeUnmount (VolumeUnmount i) = True"
| "is_VolumeUnmount _ = False"

fun is_Kill :: "event \<Rightarrow> bool" where
  "is_Kill (Kill_SIGKILL p) = True"
| "is_Kill _ = False"

fun is_blocking_wait :: "event \<Rightarrow> bool" where
  "is_blocking_wait (Waitpid p WAIT_BLOCKING) = True"
| "is_blocking_wait _ = False"

fun is_ShowMenu :: "event \<Rightarrow> bool" where
  "is_ShowMenu (ShowMenu h i c) = True"
| "is_ShowMenu _ = False"

fun is_mounting :: "event \<Rightarrow> bool" where
  "is_mounting (Mount s t f fl opts) = True"
| "is_mounting (VolumeMount i) = True"
| "is_mounting _ = False"

text \<open>
  One round of the polling loop in which the host is not ready yet: the non-blocking
  wait, the \<open>stat\<close> of the ready-signal path, and the sleep of one second.
\<close>

definition waiting_rounds :: "int \<Rightarrow> nat \<Rightarrow> event list" where
  "waiting_rounds child k =
     concat (replicate k [Waitpid child WNOHANG, Stat FUSE_SIDELOAD_HOST_PATHNAME, Sleep 1])"

text \<open>
  The host is not ready in the rounds before \<open>k\<close>: each non-blocking wait answers
  something other than \<open>- 1\<close>, and each \<open>stat\<close> fails with \<open>ENOENT\<close>.
\<close>

definition not_ready_before :: "env \<Rightarrow> nat \<Rightarrow> bool" where
  "not_ready_before e k \<longleftrightarrow>
     (\<forall>j < k. waitpid_nohang e j \<noteq> - 1 \<and> stat_host e j = Stat_errno ENOENT)"

text \<open>
  The storage was mounted and the browser returned \<open>path\<close>, a selection, in state \<open>st2\<close>.
\<close>

definition package_chosen :: "env \<Rightarrow> VolumeInfo \<Rightarrow> state \<Rightarrow> string \<Rightarrow> state \<Rightarrow> bool" where
  "package_chosen e vi st path st2 \<longleftrightarrow>
     (case mount_storage e vi st of
        (mounted, st1) \<Rightarrow> mounted \<and> BrowseDirectory e (mPath vi) st1 = (Ret path, st2))
     \<and> path \<noteq> ''@'' \<and> path \<noteq> ''''"

text \<open>The calls made from the message that announces the install up to the \<open>fork\<close>.\<close>

definition announce_and_fork :: "string \<Rightarrow> event list" where
  "announce_and_fork path =
     [Print (install_message path), Update_bootloader_message, Fork]"

text \<open>
  Every entry of a menu either ends in a slash (the "go up" entry and the
  subdirectories) or has the package extension.
\<close>

definition menu_entry :: "string \<Rightarrow> bool" where
  "menu_entry x \<longleftrightarrow> (x \<noteq> [] \<and> last x = CHR ''/'') \<or> EndsWithIgnoreCase x ''.zip''"

subsection \<open>A sample device and card\<close>

text \<open>
  The card of the scenario in the spec: volume \<open>sd1\<close> mounted at \<open>/sdcard\<close>, holding
  \<open>a.zip\<close> and the empty directory \<open>Sub\<close>. The device does not boot from UFS, the
  host becomes ready in round 3, and the installer succeeds. The sentinel values and
  the process id are sample values.
\<close>

definition sdcard_tree :: "string \<Rightarrow> dirent list option" where
  "sdcard_tree p =
     (if p = ''/sdcard'' then
        Some [\<lparr>d_name = ''a.zip'', d_type = DT_REG\<rparr>, \<lparr>d_name = ''Sub'', d_type = DT_DIR\<rparr>]
      else if p = ''/sdcard/Sub'' then Some []
      else None)"

definition sd1 :: VolumeInfo where
  "sd1 = \<lparr>mId = ''sd1'', mPath = ''/sdcard''\<rparr>"

definition sample_env :: env where
  "sample_env =
     \<lparr>bootdevice = ''soc/7824900.sdhci'',
      sdcard_volume =
        Some \<lparr>mount_point = ''/sdcard'', fs_type = ''vfat'', flags = 0, fs_options = ''''\<rparr>,
      mount_rc = 0,
      volumeMount = (\<lambda>i. True),
      opendir = sdcard_tree,
      INTERRUPTED = - 2, kGoHome = - 6, kGoBack = - 5,
      fork_result = 4711,
      provider_valid = (\<lambda>p. True),
      run_fuse_sideload = (\<lambda>p. 0),
      waitpid_nohang = (\<lambda>i. 0),
      stat_host = (\<lambda>i. if i < 3 then Stat_errno ENOENT else Stat_ok),
      install_package = (\<lambda>p a b n v d. INSTALL_SUCCESS),
      ask_to_continue_unverified = True,
      ask_to_continue_downgrade = True\<rparr>"

text \<open>The state after the user picked \<open>a.zip\<close> in the first menu.\<close>

definition a_zip_chosen :: state where
  "a_zip_chosen =
     \<lparr>keys = [],
      trace = [VolumeMount ''sd1'',
               ShowMenu [''Choose a package to install:'', ''/sdcard'']
                 [''../'', ''a.zip'', ''Sub/''] 0]\<rparr>"

text \<open>The sample card with a package that does not verify and is a downgrade.\<close>

definition unverified_then_downgrade :: env where
  "unverified_then_downgrade =
     sample_env\<lparr>install_package :=
       (\<lambda>p a b n verify allow_ab_downgrade.
          if verify then INSTALL_UNVERIFIED
          else if allow_ab_downgrade then INSTALL_SUCCESS
          else INSTALL_DOWNGRADE)\<rparr>"

text \<open>A device that boots from UFS, with an \<open>ext4\<close> card in the fstab.\<close>

definition ufs_ext4_env :: env where
  "ufs_ext4_env =
     sample_env\<lparr>bootdevice := ''1d84000.ufshc'',
                 sdcard_volume :=
                   Some \<lparr>mount_point = ''/sdcard'', fs_type = ''ext4'', flags = 0,
                         fs_options = ''''\<rparr>\<rparr>"

text \<open>The sample device when the volume manager cannot mount the card.\<close>

definition mount_fails_env :: env where
  "mount_fails_env = sample_env\<lparr>volumeMount := (\<lambda>i. False)\<rparr>"

text \<open>
  The sample device when \<open>fork\<close> fails while the process has another child: \<open>waitpid\<close>
  on \<open>- 1\<close> waits for any child and answers 0 as long as none has changed state.
\<close>

definition fork_fails_env :: env where
  "fork_fails_env = sample_env\<lparr>fork_result := - 1\<rparr>"

text \<open>The state after \<open>a.zip\<close> was installed from the sample card.\<close>

definition a_zip_installed :: state where
  "a_zip_installed =
     \<lparr>keys = [],
      trace = [VolumeMount ''sd1'',
               ShowMenu [''Choose a package to install:'', ''/sdcard'']
                 [''../'', ''a.zip'', ''Sub/''] 0,
               Print ([CHR 0x0A] @ ''-- Install /sdcard/a.zip ...'' @ [CHR 0x0A]),
               Update_bootloader_message, Fork,
               Waitpid 4711 WNOHANG, Stat FUSE_SIDELOAD_HOST_PATHNAME, Sleep 1,
               Waitpid 4711 WNOHANG, Stat FUSE_SIDELOAD_HOST_PATHNAME, Sleep 1,
               Waitpid 4711 WNOHANG, Stat FUSE_SIDELOAD_HOST_PATHNAME, Sleep 1,
               Waitpid 4711 WNOHANG, Stat FUSE_SIDELOAD_HOST_PATHNAME,
               Install_package FUSE_SIDELOAD_HOST_PATHNAME False True 0 True False,
               Stat FUSE_SIDELOAD_HOST_EXIT_PATHNAME, Waitpid 4711 WAIT_BLOCKING,
               VolumeUnmount ''sd1'']\<rparr>"

text \<open>A directory with a package whose name starts with a hyphen.\<close>

definition hyphen_dir :: "dirent list" where
  "hyphen_dir = [\<lparr>d_name = ''-a.zip'', d_type = DT_REG\<rparr>, \<lparr>d_name = ''Sub'', d_type = DT_DIR\<rparr>]"

text \<open>The sample device with that directory on the card, below a directory with a package.\<close>

definition hyphen_env :: env where
  "hyphen_env =
     sample_env\<lparr>opendir :=
       (\<lambda>p. if p = ''/sdcard'' then Some hyphen_dir
            else if p = ''/sdcard/..'' then Some [\<lparr>d_name = ''up.zip'', d_type = DT_REG\<rparr>]
            else None)\<rparr>"

text \<open>
  The sample card with a host that exits without creating the ready-signal path.
  \<open>waitpid\<close> answers 0 while the child runs and the child's pid once it has exited; a
  further call for the same child fails with \<open>- 1\<close>. In the first environment the exit is
  reported in the last round, in the second in round 1.
\<close>

definition child_exits_in_last_round :: env where
  "child_exits_in_last_round =
     sample_env\<lparr>waitpid_nohang := (\<lambda>i. if i = 9 then 4711 else 0),
                 stat_host := (\<lambda>i. Stat_errno ENOENT)\<rparr>"

definition child_exits_in_round_1 :: env where
  "child_exits_in_round_1 =
     sample_env\<lparr>waitpid_nohang := (\<lambda>i. if i = 0 then 0 else if i = 1 then 4711 else - 1),
                 stat_host := (\<lambda>i. Stat_errno ENOENT)\<rparr>"

section \<open>Properties\<close>

declare BrowseDirectory.simps [simp del] browse_menu.simps [simp del] poll.simps [simp del]

subsection \<open>The polling loop\<close>

lemma emit_trace [simp]: "trace (emit ev st) = trace st @ [ev]"
  by (simp add: emit_def)

lemma emit_keys [simp]: "keys (emit ev st) = keys st"
  by (simp add: emit_def)

lemma waiting_rounds_Suc:
  "waiting_rounds child (Suc k) =
     [Waitpid child WNOHANG, Stat FUSE_SIDELOAD_HOST_PATHNAME, Sleep 1] @ waiting_rounds child k"
  by (simp add: waiting_rounds_def)

lemma waiting_rounds_0 [simp]: "waiting_rounds child 0 = []"
  by (simp add: waiting_rounds_def)

lemma emit_as_update: "emit ev st = st\<lparr>trace := trace st @ [ev]\<rparr>"
  by (simp add: emit_def)

text \<open>Rounds in which the host is not ready only add to the trace.\<close>

lemma poll_skip:
  "\<forall>j. i \<le> j \<and> j < i + d \<longrightarrow> waitpid_nohang e j \<noteq> - 1 \<and> stat_host e j = Stat_errno ENOENT \<Longrightarrow>
   i + d < SDCARD_INSTALL_TIMEOUT \<Longrightarrow>
   poll e child i st = poll e child (i + d) (st\<lparr>trace := trace st @ waiting_rounds child d\<rparr>)"
proof (induction d arbitrary: i st)
  case 0
  then show ?case by simp
next
  case (Suc d)
  have here: "waitpid_nohang e i \<noteq> - 1" "stat_host e i = Stat_errno ENOENT"
    using Suc.prems(1) by auto
  have lt: "i < SDCARD_INSTALL_TIMEOUT - 1" "i < SDCARD_INSTALL_TIMEOUT"
    using Suc.prems(2) by linarith+
  have step: "poll e child i st = poll e child (Suc i) (st\<lparr>trace := trace st @ waiting_rounds child 1\<rparr>)"
    using here lt
    by (subst poll.simps) (simp add: Let_def emit_as_update waiting_rounds_def)
  have rest: "poll e child (Suc i) st' = poll e child (Suc i + d) (st'\<lparr>trace := trace st' @ waiting_rounds child d\<rparr>)" for st'
    using Suc.prems by (intro Suc.IH) auto
  show ?case
    by (simp add: step rest waiting_rounds_def)
qed

lemma poll_from_0:
  "not_ready_before e k \<Longrightarrow> k < SDCARD_INSTALL_TIMEOUT \<Longrightarrow>
   poll e child 0 st = poll e child k (st\<lparr>trace := trace st @ waiting_rounds child k\<rparr>)"
  using poll_skip[of 0 k e child st] by (simp add: not_ready_before_def)

lemma poll_child_gone:
  "i < SDCARD_INSTALL_TIMEOUT \<Longrightarrow> waitpid_nohang e i = - 1 \<Longrightarrow>
   poll e child i st = ((INSTALL_ERROR, True), st\<lparr>trace := trace st @ [Waitpid child WNOHANG]\<rparr>)"
  by (subst poll.simps) (simp add: emit_as_update)

lemma poll_stat_fails:
  "i < SDCARD_INSTALL_TIMEOUT \<Longrightarrow> waitpid_nohang e i \<noteq> - 1 \<Longrightarrow> stat_host e i = Stat_errno n \<Longrightarrow>
   n \<noteq> ENOENT \<or> i = SDCARD_INSTALL_TIMEOUT - 1 \<Longrightarrow>
   poll e child i st = ((INSTALL_ERROR, False), st\<lparr>trace := trace st @ [Waitpid child WNOHANG, Stat FUSE_SIDELOAD_HOST_PATHNAME, Kill_SIGKILL child]\<rparr>)"
  by (subst poll.simps) (auto simp add: emit_as_update Let_def)

lemma poll_ready:
  "i < SDCARD_INSTALL_TIMEOUT \<Longrightarrow> waitpid_nohang e i \<noteq> - 1 \<Longrightarrow> stat_host e i = Stat_ok \<Longrightarrow>
   poll e child i st =
     (case install_with_confirmations e (st\<lparr>trace := trace st @ [Waitpid child WNOHANG, Stat FUSE_SIDELOAD_HOST_PATHNAME]\<rparr>) of
        (result, st3) \<Rightarrow> ((result, False), st3))"
  by (subst poll.simps) (auto simp add: emit_as_update Let_def)

subsection \<open>Browsing\<close>

text \<open>
  A relation between states that holds across one menu read, and is reflexive and
  transitive, holds across a whole browse.
\<close>

lemma browse_preserves:
  assumes R_refl: "\<And>s. R s s"
    and R_trans: "\<And>a b c. R a b \<Longrightarrow> R b c \<Longrightarrow> R a c"
    and R_step: "\<And>hs es i s k s1. show_menu hs es i s = (k, s1) \<Longrightarrow> R s s1"
  shows "BrowseDirectory e path st = (r, st') \<Longrightarrow> R st st'"
    and "browse_menu e path hs es i st = (r, st') \<Longrightarrow> R st st'"
proof (induction e path st and e path hs es i st arbitrary: r st' and r st'
    rule: BrowseDirectory_browse_menu.induct)
  case (1 e path st)
  then show ?case
    by (auto simp: BrowseDirectory.simps R_refl split: option.splits)
next
  case (2 e path headers entries initial st)
  obtain k st1 where sm: "show_menu headers entries initial st = (k, st1)"
    by force
  have r1: "R st st1"
    using sm by (rule R_step)
  show ?case
  proof (cases k)
    case None
    then show ?thesis
      using 2(3) sm r1 by (simp add: browse_menu.simps)
  next
    case (Some c)
    show ?thesis
    proof (cases "c = INTERRUPTED e \<or> c = kGoHome e \<or> c = kGoBack e \<or> c = 0
        \<or> length entries \<le> unat c \<or> last (path @ ''/'' @ entries ! unat c) \<noteq> CHR ''/''")
      case True
      then show ?thesis
        using 2(3) sm Some r1
        by (auto simp add: browse_menu.simps Let_def split: if_splits)
    next
      case False
      let ?np = "path @ ''/'' @ entries ! unat c"
      obtain r2 st2 where sub: "BrowseDirectory e (butlast ?np) st1 = (r2, st2)"
        by force
      have r2: "R st1 st2"
        using 2(1)[OF sm[symmetric] Some _ _ _ _ refl refl _ sub] False by simp
      show ?thesis
      proof (cases "r2 = Ret ''''")
        case True
        have "R st2 st'"
          apply (rule 2(2)[OF sm[symmetric] Some _ _ _ _ refl refl _ sub[symmetric] True])
          using False 2(3) sm Some sub True
          by (auto simp: browse_menu.simps[of e path headers entries initial st])
        then show ?thesis
          using r1 r2 R_trans by blast
      next
        case other: False
        then have "st' = st2"
          using 2(3) sm Some sub False
          by (auto simp add: browse_menu.simps[of e path headers entries initial st] Let_def split: if_splits ending.splits)
        then show ?thesis
          using r1 r2 R_trans by blast
      qed
    qed
  qed
qed

lemma browse_trace:
  "BrowseDirectory e path st = (r, st') \<Longrightarrow>
     \<exists>evs. trace st' = trace st @ evs \<and> list_all is_ShowMenu evs"
proof (rule browse_preserves(1)[where R = "\<lambda>s s'. \<exists>evs. trace s' = trace s @ evs \<and> list_all is_ShowMenu evs"])
  show "\<exists>evs. trace s = trace s @ evs \<and> list_all is_ShowMenu evs" for s :: state
    by (rule exI[of _ "[]"]) simp
next
  fix a b c :: state
  assume "\<exists>evs. trace b = trace a @ evs \<and> list_all is_ShowMenu evs"
    and "\<exists>evs. trace c = trace b @ evs \<and> list_all is_ShowMenu evs"
  then obtain u v where "trace b = trace a @ u" "list_all is_ShowMenu u"
    "trace c = trace b @ v" "list_all is_ShowMenu v"
    by blast
  then have "trace c = trace a @ (u @ v) \<and> list_all is_ShowMenu (u @ v)"
    by simp
  then show "\<exists>evs. trace c = trace a @ evs \<and> list_all is_ShowMenu evs"
    by blast
next
  fix hs es i s k s1
  assume "show_menu hs es i s = (k, s1)"
  then have "trace s1 = trace s @ [ShowMenu hs es i]"
    by (auto simp: show_menu_def split: list.splits)
  then show "\<exists>evs. trace s1 = trace s @ evs \<and> list_all is_ShowMenu evs"
    by simp
qed

lemma browse_keys_suffix:
  "BrowseDirectory e path st = (r, st') \<Longrightarrow> \<exists>used. keys st = used @ keys st'"
proof (rule browse_preserves(1)[where R = "\<lambda>s s'. \<exists>used. keys s = used @ keys s'"])
  show "\<exists>used. keys s = used @ keys s" for s :: state
    by simp
next
  fix a b c :: state
  assume "\<exists>used. keys a = used @ keys b" and "\<exists>used. keys b = used @ keys c"
  then obtain u v where "keys a = u @ keys b" "keys b = v @ keys c"
    by blast
  then have "keys a = (u @ v) @ keys c"
    by simp
  then show "\<exists>used. keys a = used @ keys c"
    by blast
next
  fix hs es i s k s1
  assume "show_menu hs es i s = (k, s1)"
  then show "\<exists>used. keys s = used @ keys s1"
    by (auto simp: show_menu_def split: list.splits)
qed

lemma mount_storage_trace:
  "mount_storage e vi st = (ok, st1) \<Longrightarrow>
     \<exists>evs. trace st1 = trace st @ evs \<and> list_all is_mounting evs"
  by (auto simp: mount_storage_def do_sdcard_mount_for_ufs_def Let_def
      split: if_splits option.splits)

lemma package_chosen_trace:
  assumes "package_chosen e vi (start ks) path st2"
  shows "list_all (\<lambda>ev. is_mounting ev \<or> is_ShowMenu ev) (trace st2)"
proof -
  obtain ok st1 where m: "mount_storage e vi (start ks) = (ok, st1)"
    by force
  then have b: "BrowseDirectory e (mPath vi) st1 = (Ret path, st2)"
    using assms by (simp add: package_chosen_def)
  obtain u where u: "trace st1 = trace (start ks) @ u" "list_all is_mounting u"
    using mount_storage_trace[OF m] by blast
  obtain v where v: "trace st2 = trace st1 @ v" "list_all is_ShowMenu v"
    using browse_trace[OF b] by blast
  show ?thesis
    using u v by (auto simp: start_def list_all_iff)
qed

lemma quiet_filters:
  assumes "list_all (\<lambda>ev. is_mounting ev \<or> is_ShowMenu ev) tr"
  shows "filter is_Install_package tr = []"
    and "filter is_VolumeUnmount tr = []"
    and "filter is_Kill tr = []"
    and "filter is_blocking_wait tr = []"
proof -
  have "\<not> is_Install_package ev \<and> \<not> is_VolumeUnmount ev \<and> \<not> is_Kill ev \<and> \<not> is_blocking_wait ev"
    if "is_mounting ev \<or> is_ShowMenu ev" for ev
    using that by (cases ev) auto
  then show "filter is_Install_package tr = []" "filter is_VolumeUnmount tr = []"
    "filter is_Kill tr = []" "filter is_blocking_wait tr = []"
    using assms by (auto simp: list_all_iff filter_empty_conv)
qed

lemma waiting_rounds_filters [simp]:
  "filter is_Install_package (waiting_rounds child k) = []"
  "filter is_VolumeUnmount (waiting_rounds child k) = []"
  "filter is_Kill (waiting_rounds child k) = []"
  "filter is_blocking_wait (waiting_rounds child k) = []"
  by (induction k) (simp_all add: waiting_rounds_Suc)

lemma announce_and_fork_filters [simp]:
  "filter is_Install_package (announce_and_fork path) = []"
  "filter is_VolumeUnmount (announce_and_fork path) = []"
  "filter is_Kill (announce_and_fork path) = []"
  "filter is_blocking_wait (announce_and_fork path) = []"
  by (simp_all add: announce_and_fork_def)

subsection \<open>The run after the browser\<close>

text \<open>Once a package is chosen, the run continues with the part after the browser.\<close>

lemma apply_chosen:
  "package_chosen e vi st path st2 \<Longrightarrow> ApplyFromStorage e vi st = install_selected e vi path st2"
  by (auto simp: package_chosen_def ApplyFromStorage_def split: prod.splits)

lemma install_selected_parent:
  "fork_result e \<noteq> 0 \<Longrightarrow>
   install_selected e vi path st =
     (case poll e (fork_result e) 0 (st\<lparr>trace := trace st @ announce_and_fork path\<rparr>) of
        ((result, waited), st4) \<Rightarrow>
          (Ret result,
           st4\<lparr>trace := trace st4
                 @ (if waited then []
                    else [Stat FUSE_SIDELOAD_HOST_EXIT_PATHNAME, Waitpid (fork_result e) WAIT_BLOCKING])
                 @ [VolumeUnmount (mId vi)]\<rparr>))"
  by (auto simp: install_selected_def Let_def emit_as_update announce_and_fork_def split: prod.splits)

lemma apply_polled:
  assumes "package_chosen e vi st path st2" and "fork_result e \<noteq> 0"
    and "k < SDCARD_INSTALL_TIMEOUT" and "not_ready_before e k"
  shows "ApplyFromStorage e vi st =
     (case poll e (fork_result e) k
             (st2\<lparr>trace := trace st2 @ announce_and_fork path @ waiting_rounds (fork_result e) k\<rparr>) of
        ((result, waited), st4) \<Rightarrow>
          (Ret result,
           st4\<lparr>trace := trace st4
                 @ (if waited then []
                    else [Stat FUSE_SIDELOAD_HOST_EXIT_PATHNAME, Waitpid (fork_result e) WAIT_BLOCKING])
                 @ [VolumeUnmount (mId vi)]\<rparr>))"
  using assms
  by (simp add: apply_chosen install_selected_parent
      poll_from_0[of e k "fork_result e" "st2\<lparr>trace := trace st2 @ announce_and_fork path\<rparr>"])

lemma install_plain:
  assumes "install_package e FUSE_SIDELOAD_HOST_PATHNAME False True 0 True False = r"
    and "r \<noteq> INSTALL_UNVERIFIED" and "r \<noteq> INSTALL_DOWNGRADE"
  shows "install_with_confirmations e st =
           (r, st\<lparr>trace := trace st @ [Install_package FUSE_SIDELOAD_HOST_PATHNAME False True 0 True False]\<rparr>)"
  using assms by (simp add: install_with_confirmations_def call_install_package_def emit_as_update)

text \<open>What the installer block does after a first outcome of \<open>INSTALL_UNVERIFIED\<close>.\<close>

lemma install_unverified:
  assumes "install_package e FUSE_SIDELOAD_HOST_PATHNAME False True 0 True False = INSTALL_UNVERIFIED"
  shows "install_with_confirmations e st =
     (if ask_to_continue_unverified e then
        (let second = install_package e FUSE_SIDELOAD_HOST_PATHNAME False False 0 False False
         in if second = INSTALL_DOWNGRADE then
              (if ask_to_continue_downgrade e then
                 (install_package e FUSE_SIDELOAD_HOST_PATHNAME False False 0 False True,
                  st\<lparr>trace := trace st @
                     [Install_package FUSE_SIDELOAD_HOST_PATHNAME False True 0 True False,
                      Ask_to_continue_unverified,
                      Install_package FUSE_SIDELOAD_HOST_PATHNAME False False 0 False False,
                      Ask_to_continue_downgrade,
                      Install_package FUSE_SIDELOAD_HOST_PATHNAME False False 0 False True]\<rparr>)
               else
                 (INSTALL_DOWNGRADE,
                  st\<lparr>trace := trace st @
                     [Install_package FUSE_SIDELOAD_HOST_PATHNAME False True 0 True False,
                      Ask_to_continue_unverified,
                      Install_package FUSE_SIDELOAD_HOST_PATHNAME False False 0 False False,
                      Ask_to_continue_downgrade]\<rparr>))
            else
              (second,
               st\<lparr>trace := trace st @
                  [Install_package FUSE_SIDELOAD_HOST_PATHNAME False True 0 True False,
                   Ask_to_continue_unverified,
                   Install_package FUSE_SIDELOAD_HOST_PATHNAME False False 0 False False]\<rparr>))
      else
        (INSTALL_UNVERIFIED,
         st\<lparr>trace := trace st @
            [Install_package FUSE_SIDELOAD_HOST_PATHNAME False True 0 True False,
             Ask_to_continue_unverified]\<rparr>))"
  using assms by (simp add: install_with_confirmations_def call_install_package_def emit_as_update Let_def)

lemma apply_ready:
  assumes "package_chosen e vi st path st2" and "fork_result e \<noteq> 0"
    and "k < SDCARD_INSTALL_TIMEOUT" and "not_ready_before e k"
    and "waitpid_nohang e k \<noteq> - 1" and "stat_host e k = Stat_ok"
  shows "ApplyFromStorage e vi st =
     (case install_with_confirmations e
             (st2\<lparr>trace := trace st2 @ announce_and_fork path @ waiting_rounds (fork_result e) k
                              @ [Waitpid (fork_result e) WNOHANG, Stat FUSE_SIDELOAD_HOST_PATHNAME]\<rparr>) of
        (result, st3) \<Rightarrow>
          (Ret result,
           st3\<lparr>trace := trace st3 @ [Stat FUSE_SIDELOAD_HOST_EXIT_PATHNAME,
                                      Waitpid (fork_result e) WAIT_BLOCKING,
                                      VolumeUnmount (mId vi)]\<rparr>))"
  using assms
  by (simp add: apply_polled[where k = k and path = path and ?st2.0 = st2] poll_ready split: prod.splits)

text \<open>
  On the sample card the user picks \<open>a.zip\<close>, whatever the answers of the kernel and
  the installer will be.
\<close>

lemma sample_chosen_general:
  assumes "bootdevice e = bootdevice sample_env" and "volumeMount e = volumeMount sample_env"
    and "opendir e = sdcard_tree" and "INTERRUPTED e = - 2" and "kGoHome e = - 6"
    and "kGoBack e = - 5"
  shows "package_chosen e sd1 (start [1]) ''/sdcard/a.zip'' a_zip_chosen"
  using assms
  by (simp add: package_chosen_def sample_env_def sd1_def start_def a_zip_chosen_def
      mount_storage_def is_ufs_dev_def strlen_def NUL_def sizeof_literal_def byte_at_head_def
      emit_def BrowseDirectory.simps browse_menu.simps sdcard_tree_def menu_entries_def c_str_def
      EndsWithIgnoreCase_def tolower_def show_menu_def)

section \<open>The claims\<close>

subsection \<open>C1: the host exits before it is ready\<close>

text \<open>
  What the code does when the non-blocking wait fails: if it answers \<open>- 1\<close> in round
  \<open>k\<close>, after rounds in which the host was not ready, the call returns
  \<open>INSTALL_ERROR\<close>; after that wait the only call is the unmount, and the trace holds
  no kill and no blocking wait.
\<close>

lemma wait_fails_no_kill_no_wait:
  assumes "package_chosen e vi (start ks) path st2"
    and "fork_result e = child" and "0 < child"
    and "k < SDCARD_INSTALL_TIMEOUT"
    and "not_ready_before e k"
    and "waitpid_nohang e k = - 1"
  shows "ApplyFromStorage e vi (start ks) =
           (Ret INSTALL_ERROR,
            st2\<lparr>trace := trace st2 @ announce_and_fork path @ waiting_rounds child k
                             @ [Waitpid child WNOHANG, VolumeUnmount (mId vi)]\<rparr>)
         \<and> filter is_Kill (trace (snd (ApplyFromStorage e vi (start ks)))) = []
         \<and> filter is_blocking_wait (trace (snd (ApplyFromStorage e vi (start ks)))) = []"
proof -
  have run: "ApplyFromStorage e vi (start ks) =
           (Ret INSTALL_ERROR,
            st2\<lparr>trace := trace st2 @ announce_and_fork path @ waiting_rounds child k
                             @ [Waitpid child WNOHANG, VolumeUnmount (mId vi)]\<rparr>)"
    using assms
    by (simp add: apply_polled[where k = k and path = path and ?st2.0 = st2] poll_child_gone)
  have before: "list_all (\<lambda>ev. is_mounting ev \<or> is_ShowMenu ev) (trace st2)"
    using assms(1) by (rule package_chosen_trace)
  show ?thesis
    by (simp add: run quiet_filters[OF before])
qed

text \<open>
  An exit that is reported in round 1: the wait of round 1 answers the child's pid, which
  the test at line 218 lets pass, so the round goes on to \<open>stat\<close> and sleeps for a
  second; only the wait of round 2, which fails, ends the loop.
\<close>

lemma exited_child_polled_once_more:
  "ApplyFromStorage child_exits_in_round_1 sd1 (start [1]) =
     (Ret INSTALL_ERROR,
      a_zip_chosen\<lparr>trace := trace a_zip_chosen @ announce_and_fork ''/sdcard/a.zip''
         @ [Waitpid 4711 WNOHANG, Stat FUSE_SIDELOAD_HOST_PATHNAME, Sleep 1,
            Waitpid 4711 WNOHANG, Stat FUSE_SIDELOAD_HOST_PATHNAME, Sleep 1,
            Waitpid 4711 WNOHANG, VolumeUnmount ''sd1'']\<rparr>)"
proof -
  let ?e = child_exits_in_round_1
  have h1: "package_chosen ?e sd1 (start [1]) ''/sdcard/a.zip'' a_zip_chosen"
    by (rule sample_chosen_general) (simp_all add: child_exits_in_round_1_def sample_env_def)
  have h2: "fork_result ?e \<noteq> 0" "2 < SDCARD_INSTALL_TIMEOUT" "not_ready_before ?e 2"
    by (simp_all add: child_exits_in_round_1_def sample_env_def SDCARD_INSTALL_TIMEOUT_def
        not_ready_before_def)
  have h3: "waitpid_nohang ?e 2 = - 1"
    by (simp add: child_exits_in_round_1_def)
  have pid: "fork_result ?e = 4711" "mId sd1 = ''sd1''"
    by (simp_all add: child_exits_in_round_1_def sample_env_def sd1_def)
  show ?thesis
    unfolding apply_polled[OF h1 h2] poll_child_gone[OF h2(2) h3]
    by (simp add: pid waiting_rounds_def numeral_2_eq_2)
qed

text \<open>
  Claim C1. If the VirtualFileHost child process exits before the ready-signal path
  appears, the polling loop of \<open>ApplyFromStorage\<close> detects this through its non-blocking
  wait, stops polling at once, and the call returns Error without sending the child a
  forced kill and without any further blocking wait.

  The code sets out to do this (the branch at lines 218 to 222 and the \<open>waited\<close> flag
  that skips the blocking wait) but misses the exit itself: line 218 tests the answer of
  \<open>waitpid\<close> for \<open>- 1\<close> only, the answer of a call that fails, while the call that
  finds the child exited answers its pid. In the environment below the child exits
  before the last round without creating the ready-signal path: the wait of round 9
  answers the pid, the round goes on to \<open>stat\<close>, and the code sends \<open>SIGKILL\<close> to the
  child that is gone, signals the exit path and calls the blocking wait.
\<close>

theorem exited_child_killed_in_last_round:
  "waitpid_nohang child_exits_in_last_round 9 = fork_result child_exits_in_last_round
   \<and> ApplyFromStorage child_exits_in_last_round sd1 (start [1]) =
       (Ret INSTALL_ERROR,
        a_zip_chosen\<lparr>trace := trace a_zip_chosen @ announce_and_fork ''/sdcard/a.zip''
           @ waiting_rounds 4711 9
           @ [Waitpid 4711 WNOHANG, Stat FUSE_SIDELOAD_HOST_PATHNAME, Kill_SIGKILL 4711,
              Stat FUSE_SIDELOAD_HOST_EXIT_PATHNAME, Waitpid 4711 WAIT_BLOCKING,
              VolumeUnmount ''sd1'']\<rparr>)
   \<and> filter is_Kill (trace (snd (ApplyFromStorage child_exits_in_last_round sd1 (start [1]))))
       = [Kill_SIGKILL 4711]
   \<and> filter is_blocking_wait
       (trace (snd (ApplyFromStorage child_exits_in_last_round sd1 (start [1]))))
       = [Waitpid 4711 WAIT_BLOCKING]"
proof -
  let ?e = child_exits_in_last_round
  have h1: "package_chosen ?e sd1 (start [1]) ''/sdcard/a.zip'' a_zip_chosen"
    by (rule sample_chosen_general) (simp_all add: child_exits_in_last_round_def sample_env_def)
  have h2: "fork_result ?e \<noteq> 0" "9 < SDCARD_INSTALL_TIMEOUT" "not_ready_before ?e 9"
    by (simp_all add: child_exits_in_last_round_def sample_env_def SDCARD_INSTALL_TIMEOUT_def
        not_ready_before_def)
  have h3: "waitpid_nohang ?e 9 \<noteq> - 1" "stat_host ?e 9 = Stat_errno ENOENT"
    "ENOENT \<noteq> ENOENT \<or> 9 = SDCARD_INSTALL_TIMEOUT - 1"
    by (simp_all add: child_exits_in_last_round_def SDCARD_INSTALL_TIMEOUT_def)
  have pid: "fork_result ?e = 4711" "waitpid_nohang ?e 9 = 4711" "mId sd1 = ''sd1''"
    by (simp_all add: child_exits_in_last_round_def sample_env_def sd1_def)
  have run: "ApplyFromStorage ?e sd1 (start [1]) =
       (Ret INSTALL_ERROR,
        a_zip_chosen\<lparr>trace := trace a_zip_chosen @ announce_and_fork ''/sdcard/a.zip''
           @ waiting_rounds 4711 9
           @ [Waitpid 4711 WNOHANG, Stat FUSE_SIDELOAD_HOST_PATHNAME, Kill_SIGKILL 4711,
              Stat FUSE_SIDELOAD_HOST_EXIT_PATHNAME, Waitpid 4711 WAIT_BLOCKING,
              VolumeUnmount ''sd1'']\<rparr>)"
    unfolding apply_polled[OF h1 h2] poll_stat_fails[OF h2(2) h3]
    by (simp add: pid)
  show ?thesis
    by (simp add: run pid a_zip_chosen_def)
qed

subsection \<open>C2: an interrupted menu read\<close>

text \<open>An interrupted read ends the call that made it, with the empty string.\<close>

lemma interrupted_read:
  assumes "keys st = INTERRUPTED e # rest"
  shows "browse_menu e path hs es i st =
           (Ret '''', st\<lparr>keys := rest, trace := trace st @ [ShowMenu hs es i]\<rparr>)"
  using assms by (simp add: browse_menu.simps show_menu_def emit_def)

text \<open>
  At every level, whatever the directory: when the call for a chosen subdirectory returns
  the empty string, the level goes round its loop and presents its menu again, starting
  at the entry chosen before.
\<close>

lemma enclosing_level_resumes:
  assumes "show_menu hs es i st = (Some c, st1)"
    and "c \<noteq> INTERRUPTED e" and "c \<noteq> kGoHome e" and "c \<noteq> kGoBack e" and "c \<noteq> 0"
    and "unat c < length es"
    and "last (path @ ''/'' @ es ! unat c) = CHR ''/''"
    and "BrowseDirectory e (butlast (path @ ''/'' @ es ! unat c)) st1 = (Ret '''', st2)"
  shows "browse_menu e path hs es i st = browse_menu e path hs es c st2"
  using assms by (simp add: browse_menu.simps[of e path hs es i st] Let_def)

text \<open>
  Claim C2. For every directory tree and every recursion depth N >= 1, when a menu read
  inside \<open>BrowseDirectory\<close> at depth N is interrupted, the interruption propagates up
  through all recursion levels to the top-level caller: no enclosing \<open>BrowseDirectory\<close>
  level presents its menu again after the interrupt, and the top-level result is
  Cancelled.

  The code does not do this for N >= 2. The interrupt branch (lines 99 to 102) returns
  the empty string, and the enclosing level returns only on a non-empty result (line
  118); the "go home" branch next to it (lines 103 to 105) returns a non-empty
  sentinel, which does pass line 118 at every level. On the sample card the user enters
  \<open>Sub/\<close> and the read there is interrupted. The first run below stops at that point:
  the menu of \<open>/sdcard\<close> is on the screen again, waiting for input. In the second run
  the user then chooses \<open>a.zip\<close>, and the top-level result is that selection.
\<close>

theorem interrupt_does_not_propagate:
  "INTERRUPTED sample_env = - 2
   \<and> BrowseDirectory sample_env ''/sdcard'' (start [2, - 2]) =
       (Blocked,
        \<lparr>keys = [],
         trace = [ShowMenu [''Choose a package to install:'', ''/sdcard'']
                    [''../'', ''a.zip'', ''Sub/''] 0,
                  ShowMenu [''Choose a package to install:'', ''/sdcard/Sub''] [''../''] 0,
                  ShowMenu [''Choose a package to install:'', ''/sdcard'']
                    [''../'', ''a.zip'', ''Sub/''] 2]\<rparr>)
   \<and> BrowseDirectory sample_env ''/sdcard'' (start [2, - 2, 1]) =
       (Ret ''/sdcard/a.zip'',
        \<lparr>keys = [],
         trace = [ShowMenu [''Choose a package to install:'', ''/sdcard'']
                    [''../'', ''a.zip'', ''Sub/''] 0,
                  ShowMenu [''Choose a package to install:'', ''/sdcard/Sub''] [''../''] 0,
                  ShowMenu [''Choose a package to install:'', ''/sdcard'']
                    [''../'', ''a.zip'', ''Sub/''] 2]\<rparr>)"
  by (simp add: sample_env_def start_def emit_def BrowseDirectory.simps browse_menu.simps
      sdcard_tree_def menu_entries_def c_str_def NUL_def EndsWithIgnoreCase_def tolower_def
      show_menu_def)

subsection \<open>C3: the menu list\<close>

text \<open>What the \<open>readdir\<close> loop collects, and the menu list in general.\<close>

lemma read_entries_collects:
  "read_entries des dirs entries =
     (dirs @ map (\<lambda>de. c_str (d_name de) @ ''/'')
               (filter (\<lambda>de. d_type de = DT_DIR \<and> c_str (d_name de) \<noteq> ''.''
                              \<and> c_str (d_name de) \<noteq> ''..'') des),
      entries @ map (\<lambda>de. c_str (d_name de))
               (filter (\<lambda>de. d_type de = DT_REG
                              \<and> EndsWithIgnoreCase (c_str (d_name de)) ''.zip'') des))"
  by (induction des arbitrary: dirs entries) (auto simp: Let_def)

lemma menu_entries_sorted:
  "menu_entries des =
     sort (''../'' # map (\<lambda>de. c_str (d_name de))
               (filter (\<lambda>de. d_type de = DT_REG
                              \<and> EndsWithIgnoreCase (c_str (d_name de)) ''.zip'') des))
     @ sort (map (\<lambda>de. c_str (d_name de) @ ''/'')
               (filter (\<lambda>de. d_type de = DT_DIR \<and> c_str (d_name de) \<noteq> ''.''
                              \<and> c_str (d_name de) \<noteq> ''..'') des))"
  by (simp add: menu_entries_def read_entries_collects)

text \<open>
  Claim C3. For every directory, the menu list that \<open>BrowseDirectory\<close> presents consists
  of exactly one synthetic "go up" entry in the first position, followed by the package
  files (names ending in the fixed extension, case-insensitively) sorted
  lexicographically, followed by the subdirectories sorted lexicographically.

  The code does not do this for every directory. The comment at line 70 says that
  \<open>../\<close> is always the first entry, and line 106 treats index 0 as "go up"; but line 86
  sorts the whole vector, \<open>../\<close> included, so a package whose name starts with a byte
  below the full stop (here a hyphen) comes first. Lemma \<open>menu_entries_sorted\<close> says what
  the list is in general.
\<close>

theorem go_up_entry_not_first:
  "menu_entries hyphen_dir = [''-a.zip'', ''../'', ''Sub/'']"
  by (simp add: menu_entries_def hyphen_dir_def c_str_def NUL_def EndsWithIgnoreCase_def
      tolower_def)

text \<open>
  With such a directory on the card, choosing entry 0, the package, goes up, and
  choosing entry 1, \<open>../\<close>, descends into \<open>/sdcard/..\<close>.
\<close>

lemma hyphen_package_cannot_be_chosen:
  "fst (BrowseDirectory hyphen_env ''/sdcard'' (start [0])) = Ret ''''
   \<and> trace (snd (BrowseDirectory hyphen_env ''/sdcard'' (start [1, 1]))) =
       [ShowMenu [''Choose a package to install:'', ''/sdcard''] [''-a.zip'', ''../'', ''Sub/''] 0,
        ShowMenu [''Choose a package to install:'', ''/sdcard/..''] [''../'', ''up.zip''] 0]"
  by (simp add: hyphen_env_def sample_env_def start_def emit_def BrowseDirectory.simps
      browse_menu.simps menu_entries_def hyphen_dir_def c_str_def NUL_def EndsWithIgnoreCase_def
      tolower_def show_menu_def)

subsection \<open>C4: unmounting\<close>

text \<open>
  The installer and the polling loop do not unmount, and the call returns whenever the
  browser does and the process is the parent.
\<close>

lemma install_unmounts:
  "install_with_confirmations e st = (r, st') \<Longrightarrow>
     filter is_VolumeUnmount (trace st') = filter is_VolumeUnmount (trace st)"
  by (auto simp: install_with_confirmations_def call_install_package_def Let_def
      split: if_splits)

lemma poll_unmounts:
  "filter is_VolumeUnmount (trace (snd (poll e child i st))) = filter is_VolumeUnmount (trace st)"
proof (induction e child i st rule: poll.induct)
  case (1 e child i st)
  show ?case
  proof (cases "i < SDCARD_INSTALL_TIMEOUT \<and> waitpid_nohang e i \<noteq> - 1
      \<and> stat_host e i = Stat_errno ENOENT \<and> i < SDCARD_INSTALL_TIMEOUT - 1")
    case True
    then show ?thesis
      using 1[OF _ refl _ refl, of ENOENT] by (subst poll.simps) (simp add: Let_def)
  next
    case False
    then show ?thesis
      by (subst poll.simps)
        (auto simp: Let_def dest: install_unmounts split: stat_result.splits prod.splits)
  qed
qed

lemma apply_returns:
  assumes "mount_storage e vi st = (mounted, st1)"
    and "mounted \<Longrightarrow> \<exists>path st2. BrowseDirectory e (mPath vi) st1 = (Ret path, st2)"
    and "fork_result e \<noteq> 0"
  shows "\<exists>r st'. ApplyFromStorage e vi st = (Ret r, st')"
proof (cases mounted)
  case False
  then show ?thesis
    using assms(1) by (simp add: ApplyFromStorage_def)
next
  case True
  then obtain path st2 where "BrowseDirectory e (mPath vi) st1 = (Ret path, st2)"
    using assms(2) by blast
  then show ?thesis
    using assms(1,3) True
    by (auto simp: ApplyFromStorage_def install_selected_parent split: prod.splits)
qed

text \<open>
  Claim C4. For every execution of \<open>ApplyFromStorage\<close>, volume unmount is invoked exactly
  once before returning, except when the browse result is the "go home" sentinel, in
  which case unmount is invoked zero times.

  As stated the claim fails: when mounting fails, lines 181 and 185 return before the
  browser runs, and nothing is unmounted. In the environment below the volume manager
  cannot mount the card; the call returns \<open>INSTALL_ERROR\<close> after the one call
  \<open>VolumeMount\<close>, with no unmount, and no menu was shown, so no browse result exists
  (had the browser run on the same input, it would have returned \<open>/sdcard/a.zip\<close>).
\<close>

theorem unmount_once_counterexample:
  "ApplyFromStorage mount_fails_env sd1 (start [1]) =
     (Ret INSTALL_ERROR, \<lparr>keys = [1], trace = [VolumeMount ''sd1'']\<rparr>)
   \<and> filter is_VolumeUnmount (trace (snd (ApplyFromStorage mount_fails_env sd1 (start [1])))) = []
   \<and> fst (BrowseDirectory mount_fails_env (mPath sd1)
            (snd (mount_storage mount_fails_env sd1 (start [1])))) = Ret ''/sdcard/a.zip''"
  by (simp add: ApplyFromStorage_def mount_fails_env_def sample_env_def sd1_def start_def
      mount_storage_def is_ufs_dev_def strlen_def NUL_def sizeof_literal_def byte_at_head_def
      emit_def BrowseDirectory.simps browse_menu.simps sdcard_tree_def menu_entries_def c_str_def
      EndsWithIgnoreCase_def tolower_def show_menu_def)

text \<open>
  Claim C4 as amended. For every execution of \<open>ApplyFromStorage\<close> that returns, volume
  unmount is invoked exactly once before returning if the storage was mounted and the
  browse result is not the "go home" sentinel; it is invoked zero times if mounting
  failed or the browse result is the "go home" sentinel.

  Executions that do not return are a browser that waits for input for ever, a menu
  index out of range, and the forked child, which leaves through \<open>_exit\<close>; lemma
  \<open>apply_returns\<close> says that these are the only ones.
\<close>

theorem unmount_once_if_mounted:
  assumes "ApplyFromStorage e vi (start ks) = (Ret r, st')"
  shows "filter is_VolumeUnmount (trace st') =
           (if fst (mount_storage e vi (start ks))
               \<and> fst (BrowseDirectory e (mPath vi) (snd (mount_storage e vi (start ks)))) \<noteq> Ret ''@''
            then [VolumeUnmount (mId vi)] else [])"
proof -
  obtain ok st1 where m: "mount_storage e vi (start ks) = (ok, st1)"
    by force
  obtain u where u: "trace st1 = trace (start ks) @ u" "list_all is_mounting u"
    using mount_storage_trace[OF m] by blast
  have quiet1: "list_all (\<lambda>ev. is_mounting ev \<or> is_ShowMenu ev) (trace st1)"
    using u by (simp add: start_def list_all_iff)
  have none1: "filter is_VolumeUnmount (trace st1) = []"
    using quiet1 by (rule quiet_filters)
  show ?thesis
  proof (cases ok)
    case False
    then show ?thesis
      using assms m none1 by (auto simp: ApplyFromStorage_def)
  next
    case True
    obtain b st2 where b: "BrowseDirectory e (mPath vi) st1 = (b, st2)"
      by force
    obtain v where v: "trace st2 = trace st1 @ v" "list_all is_ShowMenu v"
      using browse_trace[OF b] by blast
    have "list_all (\<lambda>ev. is_mounting ev \<or> is_ShowMenu ev) (trace st2)"
      using v quiet1 by (auto simp: list_all_iff)
    then have none2: "filter is_VolumeUnmount (trace st2) = []"
      by (rule quiet_filters)
    obtain path where path: "b = Ret path"
      using assms m True b by (cases b) (auto simp: ApplyFromStorage_def)
    show ?thesis
    proof (cases "path = ''@'' \<or> path = ''''")
      case True
      then show ?thesis
        using assms m \<open>ok\<close> b path none2 by (auto simp: ApplyFromStorage_def)
    next
      case False
      then have sel: "install_selected e vi path st2 = (Ret r, st')"
        using assms m \<open>ok\<close> b path by (auto simp: ApplyFromStorage_def)
      then have parent: "fork_result e \<noteq> 0"
        by (auto simp: install_selected_def Let_def)
      obtain res w st4 where p: "poll e (fork_result e) 0
          (st2\<lparr>trace := trace st2 @ announce_and_fork path\<rparr>) = ((res, w), st4)"
        by (metis surj_pair)
      have "filter is_VolumeUnmount (trace st4) = []"
        using poll_unmounts[of e "fork_result e" 0 "st2\<lparr>trace := trace st2 @ announce_and_fork path\<rparr>"]
          p none2 by simp
      then have "filter is_VolumeUnmount (trace st') = [VolumeUnmount (mId vi)]"
        using sel p by (auto simp: install_selected_parent[OF parent])
      then show ?thesis
        using m \<open>ok\<close> b path False by simp
    qed
  qed
qed

text \<open>The sample card: \<open>a.zip\<close> is chosen and installed, and the card is unmounted once.\<close>

theorem unmount_once_if_mounted_witness:
  "ApplyFromStorage sample_env sd1 (start [1]) = (Ret INSTALL_SUCCESS, a_zip_installed)
   \<and> filter is_VolumeUnmount (trace a_zip_installed) = [VolumeUnmount ''sd1'']"
proof -
  have h1: "package_chosen sample_env sd1 (start [1]) ''/sdcard/a.zip'' a_zip_chosen"
    by (rule sample_chosen_general) (simp_all add: sample_env_def)
  have h2: "fork_result sample_env \<noteq> 0" "3 < SDCARD_INSTALL_TIMEOUT"
    "not_ready_before sample_env 3" "waitpid_nohang sample_env 3 \<noteq> - 1"
    "stat_host sample_env 3 = Stat_ok"
    by (simp_all add: sample_env_def SDCARD_INSTALL_TIMEOUT_def not_ready_before_def)
  have h3: "install_package sample_env FUSE_SIDELOAD_HOST_PATHNAME False True 0 True False
      = INSTALL_SUCCESS"
    by (simp add: sample_env_def)
  have run: "ApplyFromStorage sample_env sd1 (start [1]) = (Ret INSTALL_SUCCESS, a_zip_installed)"
    unfolding apply_ready[OF h1 h2] install_plain[OF h3, simplified]
    by (simp add: a_zip_installed_def a_zip_chosen_def announce_and_fork_def install_message_def
        c_str_def NUL_def waiting_rounds_def numeral_3_eq_3 sample_env_def sd1_def)
  have mounted: "mount_storage sample_env sd1 (start [1]) =
      (True, \<lparr>keys = [1], trace = [VolumeMount ''sd1'']\<rparr>)"
    by (simp add: sample_env_def sd1_def start_def mount_storage_def is_ufs_dev_def strlen_def
        NUL_def sizeof_literal_def byte_at_head_def emit_def)
  have browsed: "BrowseDirectory sample_env (mPath sd1) \<lparr>keys = [1], trace = [VolumeMount ''sd1'']\<rparr>
      = (Ret ''/sdcard/a.zip'', a_zip_chosen)"
    using h1 by (simp add: package_chosen_def mounted)
  have id: "mId sd1 = ''sd1''"
    by (simp add: sd1_def)
  show ?thesis
    using run unmount_once_if_mounted[OF run] by (simp add: mounted browsed id)
qed

subsection \<open>C5: the host never becomes ready\<close>

text \<open>
  Claim C5. If a child was forked and the ready-signal path never comes into existence
  during the bounded polling loop (the bound of 10 one-second iterations is exhausted),
  \<open>ApplyFromStorage\<close> returns Error and the child process is forcibly terminated with an
  uncatchable kill.

  The theorem: in all 10 rounds the non-blocking wait finds the child there and the
  \<open>stat\<close> fails with \<open>ENOENT\<close>. Then nine rounds end in a sleep, the tenth sends
  \<open>SIGKILL\<close> to the child, the teardown follows, and the call returns \<open>INSTALL_ERROR\<close>;
  the kill is the only one in the trace.
\<close>

theorem timeout_kills_child:
  assumes "package_chosen e vi (start ks) path st2"
    and "fork_result e = child" and "0 < child"
    and "not_ready_before e SDCARD_INSTALL_TIMEOUT"
  shows "SDCARD_INSTALL_TIMEOUT = 10
         \<and> ApplyFromStorage e vi (start ks) =
           (Ret INSTALL_ERROR,
            st2\<lparr>trace := trace st2 @ announce_and_fork path
                             @ waiting_rounds child 9
                             @ [Waitpid child WNOHANG, Stat FUSE_SIDELOAD_HOST_PATHNAME,
                                Kill_SIGKILL child,
                                Stat FUSE_SIDELOAD_HOST_EXIT_PATHNAME, Waitpid child WAIT_BLOCKING,
                                VolumeUnmount (mId vi)]\<rparr>)
         \<and> filter is_Kill (trace (snd (ApplyFromStorage e vi (start ks)))) = [Kill_SIGKILL child]"
proof -
  have bound: "SDCARD_INSTALL_TIMEOUT = 10"
    by (simp add: SDCARD_INSTALL_TIMEOUT_def)
  have last: "9 < SDCARD_INSTALL_TIMEOUT" "9 = SDCARD_INSTALL_TIMEOUT - 1"
    by (simp_all add: bound)
  have earlier: "not_ready_before e 9"
    using assms(4) by (simp add: not_ready_before_def bound)
  have at_last: "waitpid_nohang e 9 \<noteq> - 1" "stat_host e 9 = Stat_errno ENOENT"
    using assms(4) by (simp_all add: not_ready_before_def bound)
  have run: "ApplyFromStorage e vi (start ks) =
           (Ret INSTALL_ERROR,
            st2\<lparr>trace := trace st2 @ announce_and_fork path
                             @ waiting_rounds child 9
                             @ [Waitpid child WNOHANG, Stat FUSE_SIDELOAD_HOST_PATHNAME,
                                Kill_SIGKILL child,
                                Stat FUSE_SIDELOAD_HOST_EXIT_PATHNAME, Waitpid child WAIT_BLOCKING,
                                VolumeUnmount (mId vi)]\<rparr>)"
    using assms(1,2,3) last(1) earlier at_last
    by (simp add: apply_polled[where k = 9 and path = path and ?st2.0 = st2]
        poll_stat_fails[where n = ENOENT and i = 9, OF last(1) _ _ disjI2[OF last(2)]])
  have before: "list_all (\<lambda>ev. is_mounting ev \<or> is_ShowMenu ev) (trace st2)"
    using assms(1) by (rule package_chosen_trace)
  show ?thesis
    by (simp add: bound run quiet_filters[OF before])
qed

text \<open>The sample card, with a host that never creates the ready-signal path.\<close>

theorem timeout_kills_child_witness:
  "not_ready_before (sample_env\<lparr>stat_host := (\<lambda>i. Stat_errno ENOENT)\<rparr>) SDCARD_INSTALL_TIMEOUT
   \<and> fst (ApplyFromStorage (sample_env\<lparr>stat_host := (\<lambda>i. Stat_errno ENOENT)\<rparr>) sd1 (start [1]))
       = Ret INSTALL_ERROR
   \<and> filter is_Kill (trace (snd (ApplyFromStorage
            (sample_env\<lparr>stat_host := (\<lambda>i. Stat_errno ENOENT)\<rparr>) sd1 (start [1]))))
       = [Kill_SIGKILL 4711]"
proof -
  let ?e = "sample_env\<lparr>stat_host := (\<lambda>i. Stat_errno ENOENT)\<rparr>"
  have h1: "package_chosen ?e sd1 (start [1]) ''/sdcard/a.zip'' a_zip_chosen"
    by (rule sample_chosen_general) (simp_all add: sample_env_def)
  have h2: "fork_result ?e = 4711"
    by (simp add: sample_env_def)
  have h3: "(0::int) < 4711"
    by simp
  have h4: "not_ready_before ?e SDCARD_INSTALL_TIMEOUT"
    by (simp add: not_ready_before_def sample_env_def)
  show ?thesis
    using h4 timeout_kills_child[OF h1 h2 h3 h4] by (simp add: a_zip_chosen_def)
qed

subsection \<open>C6: an unverified package\<close>

text \<open>
  Claim C6. When the first installer invocation returns UnverifiedPackage and the
  interactive confirmation collaborator returns true, the installer is invoked exactly a
  second time with verification disabled and the same path, and that second outcome is
  accepted; when the confirmation returns false, the first outcome is final with no
  further installer invocation.

  As stated the claim fails: the test for \<open>INSTALL_DOWNGRADE\<close> at line 243 is an \<open>if\<close> of
  its own, not an \<open>else if\<close>, and reads the outcome of the second invocation. In the
  environment below the first outcome is unverified, the user confirms, the second
  outcome is a blocked downgrade, and the user confirms again: the installer runs three
  times and the third outcome, not the second, is returned.
\<close>

theorem unverified_reinstall_counterexample:
  "install_package unverified_then_downgrade FUSE_SIDELOAD_HOST_PATHNAME False True 0 True False
     = INSTALL_UNVERIFIED
   \<and> ask_to_continue_unverified unverified_then_downgrade
   \<and> install_package unverified_then_downgrade FUSE_SIDELOAD_HOST_PATHNAME False False 0 False False
     = INSTALL_DOWNGRADE
   \<and> filter is_Install_package
       (trace (snd (ApplyFromStorage unverified_then_downgrade sd1 (start [1])))) =
       [Install_package FUSE_SIDELOAD_HOST_PATHNAME False True 0 True False,
        Install_package FUSE_SIDELOAD_HOST_PATHNAME False False 0 False False,
        Install_package FUSE_SIDELOAD_HOST_PATHNAME False False 0 False True]
   \<and> fst (ApplyFromStorage unverified_then_downgrade sd1 (start [1])) = Ret INSTALL_SUCCESS"
proof -
  let ?e = unverified_then_downgrade
  have h1: "package_chosen ?e sd1 (start [1]) ''/sdcard/a.zip'' a_zip_chosen"
    by (rule sample_chosen_general) (simp_all add: unverified_then_downgrade_def sample_env_def)
  have h2: "fork_result ?e \<noteq> 0" "3 < SDCARD_INSTALL_TIMEOUT" "not_ready_before ?e 3"
    "waitpid_nohang ?e 3 \<noteq> - 1" "stat_host ?e 3 = Stat_ok"
    by (simp_all add: unverified_then_downgrade_def sample_env_def SDCARD_INSTALL_TIMEOUT_def
        not_ready_before_def)
  have first: "install_package ?e FUSE_SIDELOAD_HOST_PATHNAME False True 0 True False
      = INSTALL_UNVERIFIED"
    by (simp add: unverified_then_downgrade_def)
  have rest: "install_package ?e FUSE_SIDELOAD_HOST_PATHNAME False False 0 False False
      = INSTALL_DOWNGRADE"
    "install_package ?e FUSE_SIDELOAD_HOST_PATHNAME False False 0 False True = INSTALL_SUCCESS"
    "ask_to_continue_unverified ?e" "ask_to_continue_downgrade ?e"
    by (simp_all add: unverified_then_downgrade_def sample_env_def)
  show ?thesis
    by (simp add: apply_ready[OF h1 h2] install_unverified[OF first] first rest
        a_zip_chosen_def)
qed

text \<open>
  Claim C6 as amended. When the first installer invocation returns UnverifiedPackage and
  the confirmation returns true, the installer is invoked a second time with verification
  disabled and the same path; that second outcome is accepted unless it is
  DowngradeBlocked and the downgrade confirmation returns true, in which case the
  installer is invoked a third time, with verification disabled and downgrade allowed,
  and the third outcome is accepted. When the first confirmation returns false, the
  first outcome is final with no further installer invocation.
\<close>

theorem unverified_reinstall:
  assumes "package_chosen e vi (start ks) path st2"
    and "fork_result e \<noteq> 0"
    and "k < SDCARD_INSTALL_TIMEOUT"
    and "not_ready_before e k"
    and "waitpid_nohang e k \<noteq> - 1" and "stat_host e k = Stat_ok"
    and "install_package e FUSE_SIDELOAD_HOST_PATHNAME False True 0 True False = INSTALL_UNVERIFIED"
    and "install_package e FUSE_SIDELOAD_HOST_PATHNAME False False 0 False False = second"
    and "install_package e FUSE_SIDELOAD_HOST_PATHNAME False False 0 False True = third"
  shows "fst (ApplyFromStorage e vi (start ks)) =
           Ret (if ask_to_continue_unverified e then
                  (if second = INSTALL_DOWNGRADE \<and> ask_to_continue_downgrade e then third
                   else second)
                else INSTALL_UNVERIFIED)
         \<and> filter is_Install_package (trace (snd (ApplyFromStorage e vi (start ks)))) =
             (if ask_to_continue_unverified e then
                [Install_package FUSE_SIDELOAD_HOST_PATHNAME False True 0 True False,
                 Install_package FUSE_SIDELOAD_HOST_PATHNAME False False 0 False False]
                @ (if second = INSTALL_DOWNGRADE \<and> ask_to_continue_downgrade e then
                     [Install_package FUSE_SIDELOAD_HOST_PATHNAME False False 0 False True]
                   else [])
              else [Install_package FUSE_SIDELOAD_HOST_PATHNAME False True 0 True False])"
proof -
  have before: "list_all (\<lambda>ev. is_mounting ev \<or> is_ShowMenu ev) (trace st2)"
    using assms(1) by (rule package_chosen_trace)
  show ?thesis
    using assms(7,8,9)
    by (simp add: apply_ready[OF assms(1-6)] install_unverified[OF assms(7)]
        quiet_filters[OF before] Let_def)
qed

text \<open>
  The sample card with a package that does not verify and installs once verification is
  off: confirmed, it is installed by the second invocation.
\<close>

theorem unverified_reinstall_witness:
  "not_ready_before
     (sample_env\<lparr>install_package :=
        (\<lambda>p a b n verify d. if verify then INSTALL_UNVERIFIED else INSTALL_SUCCESS)\<rparr>) 3
   \<and> fst (ApplyFromStorage
       (sample_env\<lparr>install_package :=
          (\<lambda>p a b n verify d. if verify then INSTALL_UNVERIFIED else INSTALL_SUCCESS)\<rparr>)
       sd1 (start [1])) = Ret INSTALL_SUCCESS
   \<and> filter is_Install_package (trace (snd (ApplyFromStorage
       (sample_env\<lparr>install_package :=
          (\<lambda>p a b n verify d. if verify then INSTALL_UNVERIFIED else INSTALL_SUCCESS)\<rparr>)
       sd1 (start [1])))) =
       [Install_package FUSE_SIDELOAD_HOST_PATHNAME False True 0 True False,
        Install_package FUSE_SIDELOAD_HOST_PATHNAME False False 0 False False]"
proof -
  let ?e = "sample_env\<lparr>install_package :=
              (\<lambda>p a b n verify d. if verify then INSTALL_UNVERIFIED else INSTALL_SUCCESS)\<rparr>"
  have h1: "package_chosen ?e sd1 (start [1]) ''/sdcard/a.zip'' a_zip_chosen"
    by (rule sample_chosen_general) (simp_all add: sample_env_def)
  have h2: "fork_result ?e \<noteq> 0"
    by (simp add: sample_env_def)
  have h3: "3 < SDCARD_INSTALL_TIMEOUT"
    by (simp add: SDCARD_INSTALL_TIMEOUT_def)
  have h4: "not_ready_before ?e 3"
    by (simp add: not_ready_before_def sample_env_def)
  have h5: "waitpid_nohang ?e 3 \<noteq> - 1"
    by (simp add: sample_env_def)
  have h6: "stat_host ?e 3 = Stat_ok"
    by (simp add: sample_env_def)
  have h7: "install_package ?e FUSE_SIDELOAD_HOST_PATHNAME False True 0 True False
      = INSTALL_UNVERIFIED"
    by simp
  have h8: "install_package ?e FUSE_SIDELOAD_HOST_PATHNAME False False 0 False False
      = INSTALL_SUCCESS"
    by simp
  have h9: "install_package ?e FUSE_SIDELOAD_HOST_PATHNAME False False 0 False True
      = INSTALL_SUCCESS"
    by simp
  have yes: "ask_to_continue_unverified ?e"
    by (simp add: sample_env_def)
  show ?thesis
    using h4 yes unverified_reinstall[OF h1 h2 h3 h4 h5 h6 h7 h8 h9]
    by simp
qed

subsection \<open>C7: an unsupported filesystem on a UFS device\<close>

lemma c_str_no_NUL: "NUL \<notin> set s \<Longrightarrow> c_str s = s"
  by (auto simp: c_str_def takeWhile_eq_all_conv)

lemma c_str_has_no_NUL: "NUL \<notin> set (c_str s)"
  by (auto simp: c_str_def dest: set_takeWhileD)

text \<open>
  For NUL-free strings, \<open>strncmp\<close> over more bytes than the second string has answers
  0 exactly when the strings are equal.
\<close>

lemma strncmp_eq_iff:
  "NUL \<notin> set a \<Longrightarrow> NUL \<notin> set b \<Longrightarrow> length b < n \<Longrightarrow> strncmp a b n = 0 \<longleftrightarrow> a = b"
proof (induction n arbitrary: a b)
  case 0
  then show ?case by simp
next
  case (Suc n)
  show ?case
  proof (cases a)
    case Nil
    then show ?thesis
      using Suc.prems by (cases b) (auto simp: byte_at_head_def Let_def)
  next
    case (Cons x xs)
    note a = this
    show ?thesis
    proof (cases b)
      case Nil
      then show ?thesis
        using Suc.prems a by (auto simp: byte_at_head_def Let_def)
    next
      case (Cons y ys)
      have "strncmp xs ys n = 0 \<longleftrightarrow> xs = ys"
        using Suc.prems a Cons by (intro Suc.IH) auto
      then show ?thesis
        using Suc.prems a Cons by (auto simp: byte_at_head_def Let_def)
    qed
  qed
qed

lemma vfat_test:
  "strncmp (c_str s) ''vfat'' (sizeof_literal ''vfat'') = 0 \<longleftrightarrow> c_str s = ''vfat''"
proof -
  have lit: "NUL \<notin> set ''vfat''" "length ''vfat'' < sizeof_literal ''vfat''"
    by (simp_all add: NUL_def sizeof_literal_def)
  show ?thesis
    using c_str_has_no_NUL lit by (rule strncmp_eq_iff)
qed

text \<open>
  Claim C7. On a device whose boot storage is of the UFS hardware class, if the volume's
  declared filesystem type is not exactly the supported value "vfat",
  \<open>ApplyFromStorage\<close> returns Error without attempting the raw block-device mount and
  without forking any child process.

  The theorem: \<open>is_ufs_dev\<close> answers non-zero and the fstab has a volume for \<open>/sdcard\<close>
  whose type is not \<open>vfat\<close>. The code reads the type through \<open>c_str()\<close>, as every
  consumer of the fstab does, so the type is its bytes before the first NUL; for a type
  without a NUL byte that is the type itself (lemma \<open>c_str_no_NUL\<close>). Then the call
  returns \<open>INSTALL_ERROR\<close> and leaves the state as it found it: nothing is added to the
  trace, so no \<open>mount\<close>, no \<open>fork\<close>, and no menu.
\<close>

theorem ufs_wrong_fs_type:
  assumes "is_ufs_dev e \<noteq> 0"
    and "sdcard_volume e = Some v"
    and "c_str (fs_type v) \<noteq> ''vfat''"
  shows "ApplyFromStorage e vi st = (Ret INSTALL_ERROR, st)"
  using assms
  by (simp add: ApplyFromStorage_def mount_storage_def do_sdcard_mount_for_ufs_def vfat_test)

text \<open>The scenario of the spec: an \<open>ext4\<close> card on a UFS device.\<close>

theorem ufs_wrong_fs_type_witness:
  "is_ufs_dev ufs_ext4_env \<noteq> 0
   \<and> ApplyFromStorage ufs_ext4_env sd1 (start [1]) = (Ret INSTALL_ERROR, start [1])
   \<and> trace (snd (ApplyFromStorage ufs_ext4_env sd1 (start [1]))) = []"
proof -
  let ?v = "\<lparr>mount_point = ''/sdcard'', fs_type = ''ext4'', flags = 0, fs_options = ''''\<rparr>"
  have h1: "is_ufs_dev ufs_ext4_env \<noteq> 0"
    by (simp add: is_ufs_dev_def ufs_ext4_env_def strlen_def NUL_def sizeof_literal_def
        byte_at_head_def)
  have h2: "sdcard_volume ufs_ext4_env = Some ?v"
    by (simp add: ufs_ext4_env_def)
  have h3: "c_str (fs_type ?v) \<noteq> ''vfat''"
    by (simp add: c_str_def NUL_def)
  show ?thesis
    using h1 ufs_wrong_fs_type[OF h1 h2 h3, of sd1 "start [1]"] by (simp add: start_def)
qed

subsection \<open>C8: the installer runs once when the host is ready\<close>

text \<open>
  Claim C8. For every polling iteration \<open>k\<close> strictly before the bound at which the
  ready-signal path first exists, the installer is invoked exactly once for the whole
  apply call (not once per elapsed second), with isRetry=false, verification enabled, and
  downgrade disallowed, provided the outcome is neither UnverifiedPackage nor
  DowngradeBlocked.

  The theorem: the host is not ready in the rounds before \<open>k\<close>, and in round \<open>k\<close>,
  within the bound, the child is there and the \<open>stat\<close> succeeds. If the installer's
  outcome \<open>r\<close> is neither \<open>INSTALL_UNVERIFIED\<close> nor \<open>INSTALL_DOWNGRADE\<close>, the call
  returns \<open>r\<close>, and the trace of the whole call holds one installer invocation: on the
  ready-signal path, with the arguments \<open>false, true, 0, verify = true,
  allow_ab_downgrade = false\<close> of line 237.
\<close>

theorem ready_installs_once:
  assumes "package_chosen e vi (start ks) path st2"
    and "fork_result e = child" and "0 < child"
    and "k < SDCARD_INSTALL_TIMEOUT"
    and "not_ready_before e k"
    and "waitpid_nohang e k \<noteq> - 1" and "stat_host e k = Stat_ok"
    and "install_package e FUSE_SIDELOAD_HOST_PATHNAME False True 0 True False = r"
    and "r \<noteq> INSTALL_UNVERIFIED" and "r \<noteq> INSTALL_DOWNGRADE"
  shows "ApplyFromStorage e vi (start ks) =
           (Ret r,
            st2\<lparr>trace := trace st2 @ announce_and_fork path @ waiting_rounds child k
                   @ [Waitpid child WNOHANG, Stat FUSE_SIDELOAD_HOST_PATHNAME,
                      Install_package FUSE_SIDELOAD_HOST_PATHNAME False True 0 True False,
                      Stat FUSE_SIDELOAD_HOST_EXIT_PATHNAME, Waitpid child WAIT_BLOCKING,
                      VolumeUnmount (mId vi)]\<rparr>)
         \<and> filter is_Install_package (trace (snd (ApplyFromStorage e vi (start ks)))) =
             [Install_package FUSE_SIDELOAD_HOST_PATHNAME False True 0 True False]"
proof -
  have run: "ApplyFromStorage e vi (start ks) =
           (Ret r,
            st2\<lparr>trace := trace st2 @ announce_and_fork path @ waiting_rounds child k
                   @ [Waitpid child WNOHANG, Stat FUSE_SIDELOAD_HOST_PATHNAME,
                      Install_package FUSE_SIDELOAD_HOST_PATHNAME False True 0 True False,
                      Stat FUSE_SIDELOAD_HOST_EXIT_PATHNAME, Waitpid child WAIT_BLOCKING,
                      VolumeUnmount (mId vi)]\<rparr>)"
    using assms
    by (simp add: apply_ready[where k = k and path = path and ?st2.0 = st2]
        install_plain[where r = r])
  have before: "list_all (\<lambda>ev. is_mounting ev \<or> is_ShowMenu ev) (trace st2)"
    using assms(1) by (rule package_chosen_trace)
  show ?thesis
    by (simp add: run quiet_filters[OF before])
qed

text \<open>The scenario of the spec: the ready-signal path appears at second 3.\<close>

theorem ready_installs_once_witness:
  "not_ready_before sample_env 3 \<and> stat_host sample_env 3 = Stat_ok
   \<and> fst (ApplyFromStorage sample_env sd1 (start [1])) = Ret INSTALL_SUCCESS
   \<and> filter is_Install_package (trace (snd (ApplyFromStorage sample_env sd1 (start [1])))) =
       [Install_package FUSE_SIDELOAD_HOST_PATHNAME False True 0 True False]"
proof -
  have h1: "package_chosen sample_env sd1 (start [1]) ''/sdcard/a.zip'' a_zip_chosen"
    by (rule sample_chosen_general) (simp_all add: sample_env_def)
  have h2: "fork_result sample_env = 4711"
    by (simp add: sample_env_def)
  have h3: "(0::int) < 4711"
    by simp
  have h4: "3 < SDCARD_INSTALL_TIMEOUT"
    by (simp add: SDCARD_INSTALL_TIMEOUT_def)
  have h5: "not_ready_before sample_env 3"
    by (simp add: not_ready_before_def sample_env_def)
  have h6: "waitpid_nohang sample_env 3 \<noteq> - 1"
    by (simp add: sample_env_def)
  have h7: "stat_host sample_env 3 = Stat_ok"
    by (simp add: sample_env_def)
  have h8: "install_package sample_env FUSE_SIDELOAD_HOST_PATHNAME False True 0 True False
      = INSTALL_SUCCESS"
    by (simp add: sample_env_def)
  have h9: "INSTALL_SUCCESS \<noteq> INSTALL_UNVERIFIED" "INSTALL_SUCCESS \<noteq> INSTALL_DOWNGRADE"
    by simp_all
  show ?thesis
    using h5 h7 ready_installs_once[OF h1 h2 h3 h4 h5 h6 h7 h8 h9]
    by (simp add: a_zip_chosen_def)
qed

subsection \<open>C9: a failed fork\<close>

text \<open>
  Claim C9. If spawning the VirtualFileHost child process fails, \<open>ApplyFromStorage\<close>
  aborts the attempt immediately and unmounts the volume before returning Error, with no
  installer invocation and no readiness polling performed.

  As stated the claim fails: the code never tests the answer of \<open>fork\<close> for \<open>- 1\<close>. It
  enters the polling loop with \<open>child = - 1\<close>, and what happens next is up to the
  answers of \<open>waitpid(-1, ...)\<close> and \<open>stat\<close>. In the environment below \<open>fork\<close> fails,
  \<open>waitpid\<close> answers 0 and the ready-signal path exists from round 3 on: the call
  polls for three rounds, invokes the installer and returns \<open>INSTALL_SUCCESS\<close>.
\<close>

theorem fork_fails_counterexample:
  "fork_result fork_fails_env = - 1
   \<and> fst (ApplyFromStorage fork_fails_env sd1 (start [1])) = Ret INSTALL_SUCCESS
   \<and> trace (snd (ApplyFromStorage fork_fails_env sd1 (start [1]))) =
       trace a_zip_chosen @ announce_and_fork ''/sdcard/a.zip'' @ waiting_rounds (- 1) 3
       @ [Waitpid (- 1) WNOHANG, Stat FUSE_SIDELOAD_HOST_PATHNAME,
          Install_package FUSE_SIDELOAD_HOST_PATHNAME False True 0 True False,
          Stat FUSE_SIDELOAD_HOST_EXIT_PATHNAME, Waitpid (- 1) WAIT_BLOCKING,
          VolumeUnmount ''sd1'']"
proof -
  let ?e = fork_fails_env
  have h1: "package_chosen ?e sd1 (start [1]) ''/sdcard/a.zip'' a_zip_chosen"
    by (rule sample_chosen_general) (simp_all add: fork_fails_env_def sample_env_def)
  have h2: "fork_result ?e \<noteq> 0" "3 < SDCARD_INSTALL_TIMEOUT" "not_ready_before ?e 3"
    "waitpid_nohang ?e 3 \<noteq> - 1" "stat_host ?e 3 = Stat_ok"
    by (simp_all add: fork_fails_env_def sample_env_def SDCARD_INSTALL_TIMEOUT_def
        not_ready_before_def)
  have h3: "install_package ?e FUSE_SIDELOAD_HOST_PATHNAME False True 0 True False
      = INSTALL_SUCCESS"
    by (simp add: fork_fails_env_def sample_env_def)
  have pid: "fork_result ?e = - 1" "mId sd1 = ''sd1''"
    by (simp_all add: fork_fails_env_def sd1_def)
  show ?thesis
    unfolding apply_ready[OF h1 h2] install_plain[OF h3, simplified]
    by (simp add: pid)
qed

text \<open>
  Claim C9 as amended. If spawning the VirtualFileHost child process fails, \<open>fork\<close>
  answers \<open>- 1\<close> and \<open>ApplyFromStorage\<close>, which does not test for it, enters the polling
  loop. If the first non-blocking wait then answers \<open>- 1\<close> (as it does when the process
  has no child to wait for), the call unmounts the volume once and returns Error, with
  no installer invocation, no \<open>stat\<close> of the ready-signal path, no kill and no blocking
  wait.
\<close>

theorem fork_fails_then_wait_fails:
  assumes "package_chosen e vi (start ks) path st2"
    and "fork_result e = - 1"
    and "waitpid_nohang e 0 = - 1"
  shows "ApplyFromStorage e vi (start ks) =
           (Ret INSTALL_ERROR,
            st2\<lparr>trace := trace st2 @ announce_and_fork path
                             @ [Waitpid (- 1) WNOHANG, VolumeUnmount (mId vi)]\<rparr>)
         \<and> filter is_Install_package (trace (snd (ApplyFromStorage e vi (start ks)))) = []
         \<and> filter is_VolumeUnmount (trace (snd (ApplyFromStorage e vi (start ks)))) =
             [VolumeUnmount (mId vi)]"
proof -
  have round0: "0 < SDCARD_INSTALL_TIMEOUT" "not_ready_before e 0"
    by (simp_all add: SDCARD_INSTALL_TIMEOUT_def not_ready_before_def)
  have run: "ApplyFromStorage e vi (start ks) =
           (Ret INSTALL_ERROR,
            st2\<lparr>trace := trace st2 @ announce_and_fork path
                             @ [Waitpid (- 1) WNOHANG, VolumeUnmount (mId vi)]\<rparr>)"
    using assms round0
    by (simp add: apply_polled[where k = 0 and path = path and ?st2.0 = st2] poll_child_gone)
  have before: "list_all (\<lambda>ev. is_mounting ev \<or> is_ShowMenu ev) (trace st2)"
    using assms(1) by (rule package_chosen_trace)
  show ?thesis
    by (simp add: run quiet_filters[OF before])
qed

text \<open>The sample card when \<open>fork\<close> fails and the process has no child.\<close>

theorem fork_fails_then_wait_fails_witness:
  "fst (ApplyFromStorage (fork_fails_env\<lparr>waitpid_nohang := (\<lambda>i. - 1)\<rparr>) sd1 (start [1]))
     = Ret INSTALL_ERROR
   \<and> filter is_VolumeUnmount
       (trace (snd (ApplyFromStorage (fork_fails_env\<lparr>waitpid_nohang := (\<lambda>i. - 1)\<rparr>) sd1
          (start [1])))) = [VolumeUnmount ''sd1'']"
proof -
  let ?e = "fork_fails_env\<lparr>waitpid_nohang := (\<lambda>i. - 1)\<rparr>"
  have h1: "package_chosen ?e sd1 (start [1]) ''/sdcard/a.zip'' a_zip_chosen"
    by (rule sample_chosen_general) (simp_all add: fork_fails_env_def sample_env_def)
  have h2: "fork_result ?e = - 1"
    by (simp add: fork_fails_env_def)
  have h3: "waitpid_nohang ?e 0 = - 1"
    by simp
  have id: "mId sd1 = ''sd1''"
    by (simp add: sd1_def)
  show ?thesis
    using fork_fails_then_wait_fails[OF h1 h2 h3] by (simp add: id a_zip_chosen_def)
qed

subsection \<open>C10: what the browser returns\<close>

lemma read_entries_menu_entry:
  "read_entries des dirs entries = (dirs', entries') \<Longrightarrow>
   \<forall>x \<in> set dirs. menu_entry x \<Longrightarrow> \<forall>x \<in> set entries. menu_entry x \<Longrightarrow>
   (\<forall>x \<in> set dirs'. menu_entry x) \<and> (\<forall>x \<in> set entries'. menu_entry x)"
proof (induction des arbitrary: dirs entries)
  case Nil
  then show ?case by simp
next
  case (Cons de rest)
  let ?name = "c_str (d_name de)"
  show ?case
  proof (cases "d_type de = DT_DIR")
    case True
    then show ?thesis
      using Cons.prems Cons.IH[of dirs entries] Cons.IH[of "dirs @ [?name @ ''/'']" entries]
      by (auto simp: Let_def menu_entry_def split: if_splits)
  next
    case False
    then show ?thesis
      using Cons.prems Cons.IH[of dirs entries] Cons.IH[of dirs "entries @ [?name]"]
      by (auto simp: Let_def menu_entry_def split: if_splits)
  qed
qed

lemma menu_entries_menu_entry: "x \<in> set (menu_entries des) \<Longrightarrow> menu_entry x"
proof -
  assume x: "x \<in> set (menu_entries des)"
  obtain dirs entries where r: "read_entries des [] [''../''] = (dirs, entries)"
    by force
  have "(\<forall>x \<in> set dirs. menu_entry x) \<and> (\<forall>x \<in> set entries. menu_entry x)"
    using r by (rule read_entries_menu_entry) (simp_all add: menu_entry_def)
  then show ?thesis
    using x r by (auto simp: menu_entries_def)
qed

lemma EndsWithIgnoreCase_append:
  "EndsWithIgnoreCase s sfx \<Longrightarrow> EndsWithIgnoreCase (p @ s) sfx"
  by (auto simp: EndsWithIgnoreCase_def)

lemma show_menu_Some:
  "show_menu hs es i st = (Some c, st1) \<Longrightarrow> keys st = c # keys st1"
  by (auto simp: show_menu_def split: list.splits)

text \<open>
  A non-empty result is a path below the directory browsed that has the package
  extension, or it is the sentinel and the menu delivered "go home".
\<close>

lemma browse_result:
  "BrowseDirectory e path st = (Ret r, st') \<Longrightarrow> r \<noteq> '''' \<Longrightarrow>
     (prefix path r \<and> EndsWithIgnoreCase r ''.zip'') \<or> (r = ''@'' \<and> kGoHome e \<in> set (keys st))"
  "browse_menu e path hs es i st = (Ret r, st') \<Longrightarrow> \<forall>x \<in> set es. menu_entry x \<Longrightarrow> r \<noteq> '''' \<Longrightarrow>
     (prefix path r \<and> EndsWithIgnoreCase r ''.zip'') \<or> (r = ''@'' \<and> kGoHome e \<in> set (keys st))"
proof (induction e path st and e path hs es i st arbitrary: r st' and r st'
    rule: BrowseDirectory_browse_menu.induct)
  case (1 e path st)
  then show ?case
    by (auto simp: BrowseDirectory.simps menu_entries_menu_entry split: option.splits)
next
  case (2 e path headers entries initial st)
  note run = 2(3) and ok = 2(4) and nonempty = 2(5)
  obtain k st1 where sm: "show_menu headers entries initial st = (k, st1)"
    by force
  then obtain c where k: "k = Some c"
    using run by (cases k) (auto simp: browse_menu.simps)
  have keys: "keys st = c # keys st1"
    using sm k by (simp add: show_menu_Some)
  let ?np = "path @ ''/'' @ entries ! unat c"
  have not_int: "c \<noteq> INTERRUPTED e"
    using run nonempty sm k by (auto simp: browse_menu.simps split: if_splits)
  show ?case
  proof (cases "c = kGoHome e")
    case True
    then show ?thesis
      using run sm k keys not_int by (auto simp: browse_menu.simps)
  next
    case False
    note not_home = this
    have not_back: "c \<noteq> INTERRUPTED e" "c \<noteq> kGoBack e" "c \<noteq> 0"
      using run nonempty sm k not_home by (auto simp: browse_menu.simps split: if_splits)
    have in_range: "unat c < length entries"
      using run sm k not_back not_home by (auto simp: browse_menu.simps split: if_splits)
    then have item: "menu_entry (entries ! unat c)"
      using ok by simp
    show ?thesis
    proof (cases "last ?np = CHR ''/''")
      case False
      then have r: "r = ?np"
        using run sm k not_back not_home in_range by (auto simp: browse_menu.simps Let_def)
      have "EndsWithIgnoreCase (entries ! unat c) ''.zip''"
        using item False by (auto simp: menu_entry_def)
      then have "EndsWithIgnoreCase ?np ''.zip''"
        using EndsWithIgnoreCase_append[of "entries ! unat c" "''.zip''" "path @ ''/''"] by simp
      then show ?thesis
        using r by simp
    next
      case True
      note slash = this
      obtain r2 st2 where sub: "BrowseDirectory e (butlast ?np) st1 = (r2, st2)"
        by force
      have cond: "\<not> (c = kGoBack e \<or> c = 0)" "\<not> length entries \<le> unat c"
        using not_back in_range by auto
      have below: "prefix path (butlast ?np)"
        by (simp add: butlast_append)
      obtain used where used: "keys st1 = used @ keys st2"
        using browse_keys_suffix[OF sub] by blast
      show ?thesis
      proof (cases "r2 = Ret ''''")
        case True
        have again: "browse_menu e path headers entries c st2 = (Ret r, st')"
          using run sm k not_back not_home in_range slash sub True
          by (auto simp: browse_menu.simps[of e path headers entries initial st] Let_def)
        have "(prefix path r \<and> EndsWithIgnoreCase r ''.zip'')
            \<or> (r = ''@'' \<and> kGoHome e \<in> set (keys st2))"
          using 2(2)[OF sm[symmetric] k not_back(1) not_home cond refl refl slash
              sub[symmetric] True _ again ok nonempty]
          by simp
        then show ?thesis
          using keys used by auto
      next
        case False
        then have r2: "r2 = Ret r" "st2 = st'"
          using run sm k not_back not_home in_range slash sub
          by (auto simp: browse_menu.simps[of e path headers entries initial st] Let_def
              split: ending.splits if_splits)
        have "(prefix (butlast ?np) r \<and> EndsWithIgnoreCase r ''.zip'')
            \<or> (r = ''@'' \<and> kGoHome e \<in> set (keys st1))"
          using 2(1)[OF sm[symmetric] k not_back(1) not_home cond refl refl slash _ nonempty]
            sub r2
          by simp
        then show ?thesis
          using keys below by (auto intro: prefix_order.trans)
      qed
    qed
  qed
qed

text \<open>
  Claim C10. Every non-empty, non-sentinel path returned by \<open>BrowseDirectory\<close> begins
  with the root path it was called with and ends with the package extension ".zip"
  (case-insensitive); consequently a genuine selection can never equal the
  single-character "go home" sentinel "@" that \<open>ApplyFromStorage\<close> tests for, so the
  sentinel check cannot misclassify a real selection.

  The theorem: a non-empty result of a call that returns is of one of two kinds. Either
  it begins with the root path and ends with the extension, and then it is not \<open>@\<close>; or
  it is \<open>@\<close>, and then the menu delivered "go home" during the call. So a result
  other than the empty string and \<open>@\<close> is a package path under the root, and \<open>@\<close> never
  stands for a chosen file.
\<close>

theorem selection_under_root_with_extension:
  assumes "BrowseDirectory e root st = (Ret r, st')"
    and "r \<noteq> ''''"
  shows "(prefix root r \<and> EndsWithIgnoreCase r ''.zip'' \<and> r \<noteq> ''@'')
         \<or> (r = ''@'' \<and> kGoHome e \<in> set (keys st))"
proof -
  have "\<not> EndsWithIgnoreCase ''@'' ''.zip''"
    by (simp add: EndsWithIgnoreCase_def)
  then show ?thesis
    using browse_result(1)[OF assms] by auto
qed

text \<open>On the sample card, choosing entry 1 returns \<open>/sdcard/a.zip\<close>.\<close>

theorem selection_under_root_with_extension_witness:
  "BrowseDirectory sample_env ''/sdcard'' (start [1]) =
     (Ret ''/sdcard/a.zip'',
      \<lparr>keys = [],
       trace = [ShowMenu [''Choose a package to install:'', ''/sdcard'']
                  [''../'', ''a.zip'', ''Sub/''] 0]\<rparr>)
   \<and> prefix ''/sdcard'' ''/sdcard/a.zip''
   \<and> EndsWithIgnoreCase ''/sdcard/a.zip'' ''.zip''"
proof -
  have h1: "BrowseDirectory sample_env ''/sdcard'' (start [1]) =
     (Ret ''/sdcard/a.zip'',
      \<lparr>keys = [],
       trace = [ShowMenu [''Choose a package to install:'', ''/sdcard'']
                  [''../'', ''a.zip'', ''Sub/''] 0]\<rparr>)"
    by (simp add: sample_env_def start_def emit_def BrowseDirectory.simps browse_menu.simps
        sdcard_tree_def menu_entries_def c_str_def NUL_def EndsWithIgnoreCase_def tolower_def
        show_menu_def)
  have h2: "''/sdcard/a.zip'' \<noteq> ''''"
    by simp
  show ?thesis
    using h1 selection_under_root_with_extension[OF h1 h2] by simp
qed

end
